theory Spec2Isabelle
  imports Complex_Main
begin

section \<open>Values, features, images\<close>

text \<open>
  The scripts build a query against a hosted platform: every collection, list, number and
  dictionary operation they call is a primitive of that platform. The embedding gives each
  primitive used by the scripts a definition of its own, named after the call, with the
  behaviour the platform documents for it; the functions of the scripts
  (\<open>formatTable\<close>, \<open>exportTimeSeries\<close>, \<open>getSubset\<close>,
  \<open>divideAndExportTimeSeries\<close>) are then transcribed call by call.

  Numbers are rationals: every finite value of a double is one, arithmetic is exact, and
  the not-a-number and infinite values are outside the model. A property value is a
  number or a string; a property that is absent reads as null (\<open>None\<close>).
\<close>

datatype val = Num rat | Str string

datatype error =
  BandNotFound      \<comment> \<open>\<open>select\<close> names a band the image does not have\<close>
| KeyNotString      \<comment> \<open>a dictionary key that is null or a number\<close>
| NotANumber        \<comment> \<open>\<open>ee.Number(v).format\<close> on a string\<close>

type_synonym geometry = "rat \<times> rat"
type_synonym pixel = "int \<times> int"
type_synonym raster = "pixel \<Rightarrow> rat option"

record feature =
  geometry :: geometry
  properties :: "string \<rightharpoonup> val"

record image =
  image_id :: string
  image_properties :: "string \<rightharpoonup> val"
  bands :: "(string \<times> raster) list"

text \<open>Mapping a function that may fail over a collection fails with the first error.\<close>

fun mapE :: "('a \<Rightarrow> error + 'b) \<Rightarrow> 'a list \<Rightarrow> error + 'b list" where
  "mapE f [] = Inr []"
| "mapE f (x # xs) =
     (case f x of
        Inl e \<Rightarrow> Inl e
      | Inr y \<Rightarrow> (case mapE f xs of Inl e \<Rightarrow> Inl e | Inr ys \<Rightarrow> Inr (y # ys)))"

section \<open>Number formatting\<close>

definition digit_char :: "nat \<Rightarrow> char" where
  "digit_char d = ''0123456789'' ! (d mod 10)"

text \<open>The decimal numeral of a natural number, as string concatenation with a number
  and \<open>%d\<close>-style formatting print it.\<close>

fun string_of_nat :: "nat \<Rightarrow> string" where
  "string_of_nat n =
     (if n < 10 then [digit_char n] else string_of_nat (n div 10) @ [digit_char (n mod 10)])"

declare string_of_nat.simps [simp del]

text \<open>\<open>ee.Number(x).format('%.2f')\<close>: sign, integer part, a point and two digits,
  the value rounded half up in magnitude to hundredths.\<close>

definition format_2f :: "rat \<Rightarrow> string" where
  "format_2f x =
     (let h = nat \<lfloor>\<bar>x\<bar> * 100 + 1 / 2\<rfloor>
      in (if x < 0 then ''-'' else '''') @ string_of_nat (h div 100) @ ''.'' @
         [digit_char (h mod 100 div 10), digit_char (h mod 10)])"

definition is_digit :: "char \<Rightarrow> bool" where
  "is_digit c = (c \<in> set ''0123456789'')"

text \<open>A fixed-precision decimal string with two digits after the point: an optional
  sign, at least one digit, the point, two digits.\<close>

definition two_decimals :: "string \<Rightarrow> bool" where
  "two_decimals s =
     (case rev s of
        d2 # d1 # dot # ip \<Rightarrow>
          is_digit d2 \<and> is_digit d1 \<and> dot = CHR ''.'' \<and>
          (case rev ip of
             [] \<Rightarrow> False
           | c # cs \<Rightarrow>
               (if c = CHR ''-'' then cs \<noteq> [] \<and> list_all is_digit cs
                else list_all is_digit (c # cs)))
      | _ \<Rightarrow> False)"

text \<open>The number that a decimal string denotes: an optional minus sign, the digits of
  the integer part, and after the point the digits of the fraction.\<close>

definition digit_value :: "char \<Rightarrow> nat" where
  "digit_value c = length (takeWhile (\<lambda>d. d \<noteq> c) ''0123456789'')"

definition nat_of_digits :: "string \<Rightarrow> nat" where
  "nat_of_digits ds = foldl (\<lambda>n c. 10 * n + digit_value c) 0 ds"

definition unsigned_value :: "string \<Rightarrow> rat" where
  "unsigned_value body =
     (let ip = takeWhile (\<lambda>c. c \<noteq> CHR ''.'') body;
          fp = drop 1 (dropWhile (\<lambda>c. c \<noteq> CHR ''.'') body)
      in of_nat (nat_of_digits ip) + of_nat (nat_of_digits fp) / 10 ^ length fp)"

definition decimal_value :: "string \<Rightarrow> rat" where
  "decimal_value s =
     (case s of
        [] \<Rightarrow> 0
      | c # cs \<Rightarrow> if c = CHR ''-'' then - unsigned_value cs else unsigned_value s)"

section \<open>The pivot: formatTable\<close>

text \<open>
  \<open>formatTable\<close> is lines 60 to 81 of \<open>time_series_extract.js\<close>; the second script
  repeats it word for word. First the platform calls it makes.
\<close>

text \<open>\<open>table.distinct(p)\<close>: one feature for each value of property \<open>p\<close>, the
  first that has it.\<close>

fun distinct_on :: "string \<Rightarrow> feature list \<Rightarrow> feature list" where
  "distinct_on p [] = []"
| "distinct_on p (f # fs) =
     f # distinct_on p (filter (\<lambda>g. properties g p \<noteq> properties f p) fs)"

text \<open>\<open>ee.Filter.equals({leftField, rightField})\<close> as a join condition: the two
  features agree on the named properties.\<close>

definition filter_equals :: "string \<Rightarrow> string \<Rightarrow> feature \<Rightarrow> feature \<Rightarrow> bool" where
  "filter_equals leftField rightField a b = (properties a leftField = properties b rightField)"

text \<open>\<open>ee.Join.saveAll('matches').apply(primary, secondary, condition)\<close>: each primary
  feature with the list of the secondary features that meet the condition; a primary
  feature with no match is left out. The saved list is kept beside the feature here, where
  the platform stores it under the property \<open>matches\<close>; \<open>formatTable\<close> reads it back
  with \<open>row.get('matches')\<close> and drops the property with \<open>select\<close>.\<close>

definition saveAll_join ::
  "feature list \<Rightarrow> feature list \<Rightarrow> (feature \<Rightarrow> feature \<Rightarrow> bool) \<Rightarrow> (feature \<times> feature list) list" where
  "saveAll_join primary secondary condition =
     filter (\<lambda>(row, matches). matches \<noteq> [])
       (map (\<lambda>row. (row, filter (condition row) secondary)) primary)"

text \<open>\<open>ee.List([a, b]).reduce(ee.Reducer.firstNonNull())\<close>.\<close>

definition firstNonNull :: "val option \<Rightarrow> val \<Rightarrow> val" where
  "firstNonNull a b = (case a of Some v \<Rightarrow> v | None \<Rightarrow> b)"

text \<open>\<open>feature.select([p])\<close> keeps the geometry and the listed property only.\<close>

definition select_properties :: "string list \<Rightarrow> feature \<Rightarrow> feature" where
  "select_properties ps f = f\<lparr>properties := properties f |` set ps\<rparr>"

text \<open>\<open>feature.set(ee.Dictionary([k1, v1, k2, v2, ...]))\<close>: the pairs are entered in
  order, a later pair replacing an earlier one with the same key.\<close>

definition set_dictionary :: "(string \<times> val) list \<Rightarrow> feature \<Rightarrow> feature" where
  "set_dictionary kvs f = f\<lparr>properties := properties f ++ map_of (rev kvs)\<rparr>"

text \<open>The inner function of \<open>formatTable\<close> (lines 73 to 78): one matched feature gives
  the pair of its column name, \<open>feature.get(colId)\<close>, and its formatted value, the first
  non-null of \<open>feature.get(bandAlias)\<close> and \<open>-9999\<close> printed with \<open>%.2f\<close>. The
  platform rejects a dictionary key that is not a string and a string where a number is to
  be formatted.\<close>

definition sentinel :: rat where
  "sentinel = - 9999"

definition cell_of :: "string \<Rightarrow> string \<Rightarrow> feature \<Rightarrow> error + (string \<times> val)" where
  "cell_of colId bandAlias feature =
     (let value = firstNonNull (properties feature bandAlias) (Num sentinel)
      in case properties feature colId of
           Some (Str k) \<Rightarrow>
             (case value of
                Num x \<Rightarrow> Inr (k, Str (format_2f x))
              | Str _ \<Rightarrow> Inl NotANumber)
         | _ \<Rightarrow> Inl KeyNotString)"

text \<open>The function that \<open>formatTable\<close> maps over the joined rows (lines 71 to 80), and
  \<open>formatTable\<close> itself.\<close>

definition format_row ::
  "string \<Rightarrow> string \<Rightarrow> string \<Rightarrow> feature \<times> feature list \<Rightarrow> error + feature" where
  "format_row rowId colId bandAlias joined_row =
     (case joined_row of (row, matches) \<Rightarrow>
        (case mapE (cell_of colId bandAlias) matches of
           Inl e \<Rightarrow> Inl e
         | Inr values \<Rightarrow> Inr (set_dictionary values (select_properties [rowId] row))))"

definition formatTable ::
  "feature list \<Rightarrow> string \<Rightarrow> string \<Rightarrow> string \<Rightarrow> error + feature list" where
  "formatTable table rowId colId bandAlias =
     (let rows = distinct_on rowId table;
          joined = saveAll_join rows table (filter_equals rowId rowId)
      in mapE (format_row rowId colId bandAlias) joined)"

section \<open>The query: exportTimeSeries\<close>

text \<open>
  What the scripts take from the platform and do not compute: the image collection an
  identifier denotes, and the mean of an image over a geometry at a scale (null where no
  unmasked pixel is found).
\<close>

record platform =
  image_collection :: "string \<Rightarrow> image list"
  reduce_mean :: "image \<Rightarrow> geometry \<Rightarrow> rat \<Rightarrow> rat option"

text \<open>\<open>collection.filterDate(start, end)\<close>: the images whose \<open>system:time_start\<close> lies
  in the half-open range. The bounds are given as numbers (milliseconds), one of the forms
  the call accepts.\<close>

definition filterDate :: "rat \<Rightarrow> rat \<Rightarrow> image list \<Rightarrow> image list" where
  "filterDate startDate endDate imageCollection =
     filter (\<lambda>img. case image_properties img ''system:time_start'' of
                        Some (Num t) \<Rightarrow> startDate \<le> t \<and> t < endDate
                      | _ \<Rightarrow> False) imageCollection"

text \<open>\<open>image.select(band)\<close>: the image with that band alone.\<close>

definition select :: "string \<Rightarrow> image \<Rightarrow> error + image" where
  "select band img =
     (case map_of (bands img) band of
        None \<Rightarrow> Inl BandNotFound
      | Some r \<Rightarrow> Inr (img\<lparr>bands := [(band, r)]\<rparr>))"

text \<open>\<open>image.multiply(m)\<close>: every unmasked pixel of every band times the constant. The
  result keeps the identifier of the image and none of its other properties.\<close>

definition multiply :: "image \<Rightarrow> rat \<Rightarrow> image" where
  "multiply img m =
     img\<lparr>image_properties := Map.empty,
           bands := map (\<lambda>(name, r). (name, \<lambda>p. map_option (\<lambda>v. v * m) (r p))) (bands img)\<rparr>"

text \<open>\<open>destination.copyProperties(source, names)\<close>: the listed properties that the
  source has are written to the destination.\<close>

definition copyProperties :: "image \<Rightarrow> image \<Rightarrow> string list \<Rightarrow> image" where
  "copyProperties destination source names =
     destination\<lparr>image_properties :=
       image_properties destination ++ (image_properties source |` set names)\<rparr>"

text \<open>\<open>image.reduceRegions({collection, reducer: mean().setOutputs([output]), scale})\<close>:
  the features of the collection, each with the mean under the output name when there is
  one.\<close>

definition reduceRegions ::
  "platform \<Rightarrow> image \<Rightarrow> feature list \<Rightarrow> string \<Rightarrow> rat \<Rightarrow> feature list" where
  "reduceRegions pf img collection output scale =
     map (\<lambda>feature.
            case reduce_mean pf img (geometry feature) scale of
              None \<Rightarrow> feature
            | Some v \<Rightarrow> feature\<lparr>properties := (properties feature)(output \<mapsto> Num v)\<rparr>)
         collection"

definition set_property :: "feature \<Rightarrow> string \<Rightarrow> val \<Rightarrow> feature" where
  "set_property feature name v = feature\<lparr>properties := (properties feature)(name \<mapsto> v)\<rparr>"

text \<open>The stages of \<open>exportTimeSeries\<close> (lines 27 to 57), one definition for each of the
  variables \<open>filtered\<close>, \<open>scaledBand\<close>, \<open>triplets\<close> and \<open>timeSeriesResults\<close>. The
  feature collection is passed as the collection that \<open>ee.FeatureCollection\<close> makes of the
  argument; the row and column names \<open>id\<close> and \<open>imageId\<close> are the ones the script
  passes to \<open>formatTable\<close>. An error anywhere in the query is the result of the query.\<close>

definition filtered :: "platform \<Rightarrow> string \<Rightarrow> rat \<Rightarrow> rat \<Rightarrow> string \<Rightarrow> error + image list" where
  "filtered pf imageCollectionId startDate endDate band =
     (let imageCollection = image_collection pf imageCollectionId
      in mapE (select band) (filterDate startDate endDate imageCollection))"

definition scaledBand :: "rat \<Rightarrow> image list \<Rightarrow> image list" where
  "scaledBand multiplier images =
     map (\<lambda>img. copyProperties (multiply img multiplier) img
                     [''system:time_start'', ''system:time_end'']) images"

definition triplets ::
  "platform \<Rightarrow> feature list \<Rightarrow> string \<Rightarrow> rat \<Rightarrow> image list \<Rightarrow> feature list" where
  "triplets pf featureCollection bandAlias scale images =
     concat (map (\<lambda>img.
                    map (\<lambda>feature. set_property feature ''imageId'' (Str (image_id img)))
                      (reduceRegions pf img featureCollection bandAlias scale))
                 images)"

definition timeSeriesResults ::
  "platform \<Rightarrow> string \<Rightarrow> feature list \<Rightarrow> rat \<Rightarrow> rat \<Rightarrow> string \<Rightarrow> string \<Rightarrow> rat \<Rightarrow> rat
     \<Rightarrow> error + feature list" where
  "timeSeriesResults pf imageCollectionId featureCollection startDate endDate band bandAlias
       scale multiplier =
     (case filtered pf imageCollectionId startDate endDate band of
        Inl e \<Rightarrow> Inl e
      | Inr images \<Rightarrow>
          formatTable (triplets pf featureCollection bandAlias scale (scaledBand multiplier images))
            ''id'' ''imageId'' bandAlias)"

text \<open>The effects of the script: what \<open>print\<close> writes, and the export tasks that
  \<open>Export.table.toDrive\<close> creates.\<close>

record export_task =
  task_collection :: "error + feature list"
  task_description :: string
  task_folder :: string
  task_fileNamePrefix :: string
  task_fileFormat :: string

record session =
  console :: "(error + feature option) list"
  tasks :: "export_task list"

definition first_of :: "error + feature list \<Rightarrow> error + feature option" where
  "first_of c = (case c of Inl e \<Rightarrow> Inl e | Inr [] \<Rightarrow> Inr None | Inr (f # _) \<Rightarrow> Inr (Some f))"

definition exportTimeSeries ::
  "platform \<Rightarrow> string \<Rightarrow> feature list \<Rightarrow> rat \<Rightarrow> rat \<Rightarrow> string \<Rightarrow> string \<Rightarrow> rat \<Rightarrow> rat
     \<Rightarrow> string \<Rightarrow> string \<Rightarrow> session \<Rightarrow> session" where
  "exportTimeSeries pf imageCollectionId featureCollection startDate endDate band bandAlias
       scale multiplier outputFolder fileNamePrefix s =
     (let results = timeSeriesResults pf imageCollectionId featureCollection startDate endDate
                      band bandAlias scale multiplier
      in s\<lparr>console := console s @ [first_of results],
           tasks := tasks s @
             [\<lparr>task_collection = results, task_description = fileNamePrefix,
               task_folder = outputFolder, task_fileNamePrefix = fileNamePrefix,
               task_fileFormat = ''CSV''\<rparr>]\<rparr>)"

section \<open>Chunking: getSubset and divideAndExportTimeSeries\<close>

text \<open>\<open>collection.toList(count, offset)\<close>: at most \<open>count\<close> elements, after the first
  \<open>offset\<close> ones. \<open>getSubset\<close> (lines 89 to 91 of the second script) calls it as
  \<open>collection.toList(endIndex, startIndex)\<close>.\<close>

definition toList :: "'a list \<Rightarrow> nat \<Rightarrow> nat \<Rightarrow> 'a list" where
  "toList collection count offset = take count (drop offset collection)"

definition getSubset :: "feature list \<Rightarrow> nat \<Rightarrow> nat \<Rightarrow> feature list" where
  "getSubset collection startIndex endIndex = toList collection endIndex startIndex"

text \<open>\<open>totalFeatures.divide(numChunks).ceil()\<close>; the platform's division by zero is
  zero, as the division of HOL is.\<close>

definition chunk_size :: "nat \<Rightarrow> nat \<Rightarrow> nat" where
  "chunk_size totalFeatures numChunks =
     nat \<lceil>(of_nat totalFeatures :: rat) / of_nat numChunks\<rceil>"

text \<open>\<open>divideAndExportTimeSeries\<close> is lines 94 to 106 of the second script. The body of
  its loop computes, for the counter \<open>i\<close>, the subset from \<open>startIndex\<close> and
  \<open>endIndex\<close> and the prefix \<open>'chunk' + (i + 1) + '_' + bandAlias\<close>, and calls
  \<open>exportTimeSeries\<close> with them; the loop is the recursion \<open>divide_loop\<close> on the counter,
  which starts at 0 and stops when it reaches \<open>numChunks\<close>, a natural number.\<close>

definition chunk_subset :: "feature list \<Rightarrow> nat \<Rightarrow> nat \<Rightarrow> feature list" where
  "chunk_subset collection chunkSize i =
     (let startIndex = i * chunkSize;
          endIndex = startIndex + chunkSize
      in getSubset collection startIndex endIndex)"

definition chunk_prefix :: "nat \<Rightarrow> string \<Rightarrow> string" where
  "chunk_prefix i bandAlias = ''chunk'' @ string_of_nat (i + 1) @ ''_'' @ bandAlias"

function divide_loop ::
  "platform \<Rightarrow> feature list \<Rightarrow> nat \<Rightarrow> string \<Rightarrow> rat \<Rightarrow> rat \<Rightarrow> string \<Rightarrow> string \<Rightarrow> rat \<Rightarrow> rat
     \<Rightarrow> string \<Rightarrow> nat \<Rightarrow> nat \<Rightarrow> session \<Rightarrow> session" where
  "divide_loop pf collection numChunks imageCollectionId startDate endDate band bandAlias
       scale multiplier outputFolder chunkSize i s =
     (if i < numChunks then
        divide_loop pf collection numChunks imageCollectionId startDate endDate band bandAlias
          scale multiplier outputFolder chunkSize (i + 1)
          (exportTimeSeries pf imageCollectionId (chunk_subset collection chunkSize i)
             startDate endDate band bandAlias scale multiplier outputFolder
             (chunk_prefix i bandAlias) s)
      else s)"
  by pat_completeness auto
termination
  by (relation "measure (\<lambda>(pf, collection, numChunks, imageCollectionId, startDate, endDate,
        band, bandAlias, scale, multiplier, outputFolder, chunkSize, i, s). numChunks - i)")
     auto

declare divide_loop.simps [simp del]

definition divideAndExportTimeSeries ::
  "platform \<Rightarrow> feature list \<Rightarrow> nat \<Rightarrow> string \<Rightarrow> rat \<Rightarrow> rat \<Rightarrow> string \<Rightarrow> string \<Rightarrow> rat \<Rightarrow> rat
     \<Rightarrow> string \<Rightarrow> session \<Rightarrow> session" where
  "divideAndExportTimeSeries pf collection numChunks imageCollectionId startDate endDate band
       bandAlias scale multiplier outputFolder s =
     (let totalFeatures = length collection;
          chunkSize = chunk_size totalFeatures numChunks
      in divide_loop pf collection numChunks imageCollectionId startDate endDate band bandAlias
           scale multiplier outputFolder chunkSize 0 s)"

section \<open>Vocabulary of the properties\<close>

text \<open>A long-format triplet: a feature with a point identifier under \<open>rowId\<close>, the
  identifier of an image (a string other than the name \<open>rowId\<close> itself) under
  \<open>colId\<close>, and a number or nothing under \<open>bandAlias\<close>.\<close>

definition triplet :: "string \<Rightarrow> string \<Rightarrow> string \<Rightarrow> feature \<Rightarrow> bool" where
  "triplet rowId colId bandAlias f =
     (properties f rowId \<noteq> None \<and>
      (case properties f colId of Some (Str c) \<Rightarrow> c \<noteq> rowId | _ \<Rightarrow> False) \<and>
      (case properties f bandAlias of Some (Str _) \<Rightarrow> False | _ \<Rightarrow> True))"

definition triplet_table :: "string \<Rightarrow> string \<Rightarrow> string \<Rightarrow> feature list \<Rightarrow> bool" where
  "triplet_table rowId colId bandAlias table = list_all (triplet rowId colId bandAlias) table"

text \<open>The image identifiers observed in a table, and the value columns of a wide table:
  the property names of its rows other than the row identifier.\<close>

definition image_ids :: "string \<Rightarrow> feature list \<Rightarrow> string set" where
  "image_ids colId table = {c. \<exists>f\<in>set table. properties f colId = Some (Str c)}"

definition value_columns :: "string \<Rightarrow> feature list \<Rightarrow> string set" where
  "value_columns rowId wide = (\<Union>r\<in>set wide. dom (properties r)) - {rowId}"

text \<open>Whether a table has a triplet for point \<open>p\<close> and image \<open>c\<close>, and whether it
  has one with a value: the point is then measured in the image.\<close>

definition has_triplet :: "feature list \<Rightarrow> string \<Rightarrow> string \<Rightarrow> val \<Rightarrow> string \<Rightarrow> bool" where
  "has_triplet table rowId colId p c =
     (\<exists>f\<in>set table. properties f rowId = Some p \<and> properties f colId = Some (Str c))"

definition measured ::
  "feature list \<Rightarrow> string \<Rightarrow> string \<Rightarrow> string \<Rightarrow> val \<Rightarrow> string \<Rightarrow> bool" where
  "measured table rowId colId bandAlias p c =
     (\<exists>f\<in>set table. properties f rowId = Some p \<and> properties f colId = Some (Str c) \<and>
        properties f bandAlias \<noteq> None)"

text \<open>The value of a pixel of a band of an image; null where the pixel is masked or the
  image has no such band.\<close>

definition pixel_value :: "image \<Rightarrow> string \<Rightarrow> pixel \<Rightarrow> rat option" where
  "pixel_value img band p = (case map_of (bands img) band of None \<Rightarrow> None | Some r \<Rightarrow> r p)"

text \<open>The pair a triplet is sampled for.\<close>

definition pair_of :: "feature \<Rightarrow> val option \<times> val option" where
  "pair_of f = (properties f ''id'', properties f ''imageId'')"

section \<open>Sample data\<close>

text \<open>A table of three triplets (point 1 in images \<open>a\<close> and \<open>b\<close>, without a value in
  \<open>b\<close>; point 2 in image \<open>a\<close> only), three points, and a platform with three images
  of two bands whose pixels in column 2 are masked.\<close>

definition sample :: "rat \<Rightarrow> string \<Rightarrow> rat option \<Rightarrow> feature" where
  "sample pid iid v =
     \<lparr>geometry = (pid, 0),
      properties = map_of ([(''id'', Num pid), (''imageId'', Str iid), (''site'', Str ''ridge'')] @
                           (case v of None \<Rightarrow> [] | Some x \<Rightarrow> [(''ndvi'', Num x)]))\<rparr>"

definition sample_table :: "feature list" where
  "sample_table = [sample 1 ''a'' (Some (1 / 2)), sample 1 ''b'' None, sample 2 ''a'' (Some (1 / 8))]"

definition point :: "rat \<Rightarrow> feature" where
  "point pid = \<lparr>geometry = (pid, 0), properties = [''id'' \<mapsto> Num pid]\<rparr>"

definition sample_points :: "feature list" where
  "sample_points = [point 1, point 2, point 3]"

text \<open>Two points with different identifiers that lie in the same pixel.\<close>

definition close_points :: "feature list" where
  "close_points = [point 1, point (3 / 2)]"

definition sample_raster :: "rat \<Rightarrow> raster" where
  "sample_raster v = (\<lambda>p. if fst p = 2 then None else Some (v + of_int (fst p)))"

definition scene :: "string \<Rightarrow> rat \<Rightarrow> rat \<Rightarrow> image" where
  "scene iid t v =
     \<lparr>image_id = iid,
      image_properties = [''system:time_start'' \<mapsto> Num t, ''system:time_end'' \<mapsto> Num (t + 16),
                          ''cloud_cover'' \<mapsto> Num 3],
      bands = [(''NDVI'', sample_raster v), (''EVI'', sample_raster 0)]\<rparr>"

definition sample_platform :: platform where
  "sample_platform =
     \<lparr>image_collection = (\<lambda>name. [scene ''a'' 0 1000, scene ''b'' 16 2000, scene ''c'' 400 3000]),
      reduce_mean = (\<lambda>img g s. case bands img of [] \<Rightarrow> None | (name, r) # _ \<Rightarrow> r (\<lfloor>fst g\<rfloor>, \<lfloor>snd g\<rfloor>))\<rparr>"

definition empty_session :: session where
  "empty_session = \<lparr>console = [], tasks = []\<rparr>"

section \<open>Failing maps, distinct rows and the join\<close>

lemma mapE_Inr_iff: "mapE f xs = Inr ys \<longleftrightarrow> list_all2 (\<lambda>x y. f x = Inr y) xs ys"
proof (induction xs arbitrary: ys)
  case Nil
  show ?case by auto
next
  case (Cons x xs)
  show ?case
    by (cases ys) (auto simp: Cons.IH[symmetric] split: sum.splits)
qed

lemma mapE_total:
  "(\<And>x. x \<in> set xs \<Longrightarrow> \<exists>y. f x = Inr y) \<Longrightarrow> \<exists>ys. mapE f xs = Inr ys"
proof (induction xs)
  case Nil
  show ?case by simp
next
  case (Cons x xs)
  then obtain y ys where "f x = Inr y" "mapE f xs = Inr ys"
    by (meson list.set_intros)
  then show ?case by simp
qed

lemma list_all2_in_set2:
  "list_all2 P xs ys \<Longrightarrow> y \<in> set ys \<Longrightarrow> \<exists>x\<in>set xs. P x y"
  by (induction rule: list_all2_induct) auto

lemma list_all2_in_set1:
  "list_all2 P xs ys \<Longrightarrow> x \<in> set xs \<Longrightarrow> \<exists>y\<in>set ys. P x y"
  by (induction rule: list_all2_induct) auto

lemma distinct_on_subset: "set (distinct_on p fs) \<subseteq> set fs"
  by (induction p fs rule: distinct_on.induct) auto

lemma distinct_on_keys:
  "(\<lambda>f. properties f p) ` set (distinct_on p fs) = (\<lambda>f. properties f p) ` set fs"
  by (induction p fs rule: distinct_on.induct) auto

lemma distinct_on_distinct: "distinct (map (\<lambda>f. properties f p) (distinct_on p fs))"
proof (induction p fs rule: distinct_on.induct)
  case (1 p)
  show ?case by simp
next
  case (2 p f fs)
  have "properties f p \<notin> (\<lambda>g. properties g p) ` set (filter (\<lambda>g. properties g p \<noteq> properties f p) fs)"
    by auto
  then have "properties f p \<notin> (\<lambda>g. properties g p) ` set (distinct_on p (filter (\<lambda>g. properties g p \<noteq> properties f p) fs))"
    by (simp only: distinct_on_keys not_False_eq_True)
  with 2 show ?case by simp
qed

lemma length_distinct_on:
  "length (distinct_on p fs) = card ((\<lambda>f. properties f p) ` set fs)"
proof -
  have "card ((\<lambda>f. properties f p) ` set fs) = card (set (map (\<lambda>f. properties f p) (distinct_on p fs)))"
    by (simp add: distinct_on_keys)
  also have "\<dots> = length (map (\<lambda>f. properties f p) (distinct_on p fs))"
    by (rule distinct_card) (rule distinct_on_distinct)
  finally show ?thesis by simp
qed

lemma joined_rows:
  "saveAll_join (distinct_on rowId table) table (filter_equals rowId rowId) =
     map (\<lambda>row. (row, filter (filter_equals rowId rowId row) table)) (distinct_on rowId table)"
proof -
  have "filter (filter_equals rowId rowId row) table \<noteq> []" if "row \<in> set (distinct_on rowId table)" for row
  proof -
    from that distinct_on_subset have "row \<in> set table" by blast
    moreover have "filter_equals rowId rowId row row" by (simp add: filter_equals_def)
    ultimately show ?thesis by (auto simp: filter_empty_conv)
  qed
  then show ?thesis
    unfolding saveAll_join_def by (simp add: filter_id_conv)
qed

lemma formatTable_rows:
  "formatTable table rowId colId bandAlias = Inr wide \<longleftrightarrow>
     list_all2 (\<lambda>row r. format_row rowId colId bandAlias
                  (row, filter (filter_equals rowId rowId row) table) = Inr r)
       (distinct_on rowId table) wide"
  unfolding formatTable_def Let_def joined_rows mapE_Inr_iff list_all2_map1 ..


section \<open>One row of the wide table\<close>

lemma cell_of_Inr:
  "cell_of colId bandAlias f = Inr (k, v) \<longleftrightarrow>
     properties f colId = Some (Str k) \<and>
     (properties f bandAlias = None \<and> v = Str (format_2f sentinel) \<or>
      (\<exists>x. properties f bandAlias = Some (Num x) \<and> v = Str (format_2f x)))"
  by (auto simp: cell_of_def firstNonNull_def split: option.splits val.splits)

lemma properties_set_dictionary:
  "properties (set_dictionary kvs (select_properties [rowId] row)) k =
     (case map_of (rev kvs) k of
        Some v \<Rightarrow> Some v
      | None \<Rightarrow> if k = rowId then properties row rowId else None)"
  by (simp add: set_dictionary_def select_properties_def map_add_def restrict_map_def
      split: option.splits)

lemma format_row_Inr:
  "format_row rowId colId bandAlias (row, ms) = Inr r \<longleftrightarrow>
     (\<exists>kvs. list_all2 (\<lambda>f kv. cell_of colId bandAlias f = Inr kv) ms kvs \<and>
        r = set_dictionary kvs (select_properties [rowId] row))"
  by (cases "mapE (cell_of colId bandAlias) ms") (auto simp: format_row_def mapE_Inr_iff[symmetric])

lemma format_row_cell_origin:
  assumes "format_row rowId colId bandAlias (row, ms) = Inr r"
    and "properties r k = Some v"
  shows "(k = rowId \<and> properties row rowId = Some v) \<or>
         (\<exists>f\<in>set ms. cell_of colId bandAlias f = Inr (k, v))"
proof -
  from assms(1) obtain kvs
    where cells: "list_all2 (\<lambda>f kv. cell_of colId bandAlias f = Inr kv) ms kvs"
      and r: "r = set_dictionary kvs (select_properties [rowId] row)"
    unfolding format_row_Inr by blast
  show ?thesis
  proof (cases "map_of (rev kvs) k")
    case None
    with assms(2) r show ?thesis
      by (simp add: properties_set_dictionary split: if_splits)
  next
    case (Some w)
    with assms(2) r have "w = v"
      by (simp add: properties_set_dictionary)
    with Some have "(k, v) \<in> set kvs"
      by (auto dest: map_of_SomeD)
    with cells show ?thesis
      by (auto dest: list_all2_in_set2)
  qed
qed

lemma format_row_cell_present:
  assumes "format_row rowId colId bandAlias (row, ms) = Inr r"
    and "f \<in> set ms" and "properties f colId = Some (Str k)"
  shows "\<exists>g\<in>set ms. \<exists>v. cell_of colId bandAlias g = Inr (k, v) \<and> properties r k = Some v"
proof -
  from assms(1) obtain kvs
    where cells: "list_all2 (\<lambda>f kv. cell_of colId bandAlias f = Inr kv) ms kvs"
      and r: "r = set_dictionary kvs (select_properties [rowId] row)"
    unfolding format_row_Inr by blast
  from cells assms(2) obtain kv where kv: "kv \<in> set kvs" "cell_of colId bandAlias f = Inr kv"
    by (auto dest: list_all2_in_set1)
  with assms(3) have "fst kv = k"
    by (cases kv) (simp add: cell_of_Inr)
  with kv(1) have "k \<in> fst ` set (rev kvs)" by force
  then have "map_of (rev kvs) k \<noteq> None"
    by (simp only: map_of_eq_None_iff not_not)
  then obtain v where v: "map_of (rev kvs) k = Some v"
    by blast
  then have "(k, v) \<in> set kvs"
    by (auto dest: map_of_SomeD)
  with cells obtain g where "g \<in> set ms" "cell_of colId bandAlias g = Inr (k, v)"
    by (auto dest: list_all2_in_set2)
  moreover from v r have "properties r k = Some v"
    by (simp add: properties_set_dictionary)
  ultimately show ?thesis by blast
qed

lemma format_row_rowId_kept:
  assumes "format_row rowId colId bandAlias (row, ms) = Inr r"
    and "\<And>f. f \<in> set ms \<Longrightarrow> properties f colId \<noteq> Some (Str rowId)"
  shows "properties r rowId = properties row rowId"
proof (cases "properties r rowId")
  case None
  from assms(1) obtain kvs
    where r: "r = set_dictionary kvs (select_properties [rowId] row)"
    unfolding format_row_Inr by blast
  with None show ?thesis
    by (simp add: properties_set_dictionary split: option.splits)
next
  case (Some v)
  from format_row_cell_origin[OF assms(1) Some] assms(2) Some show ?thesis
    by (auto simp: cell_of_Inr)
qed


section \<open>The wide table\<close>

lemma wide_row_origin:
  assumes "formatTable table rowId colId bandAlias = Inr wide" and "r \<in> set wide"
  shows "\<exists>row\<in>set table. format_row rowId colId bandAlias
            (row, filter (filter_equals rowId rowId row) table) = Inr r"
proof -
  from assms obtain row where "row \<in> set (distinct_on rowId table)"
    "format_row rowId colId bandAlias (row, filter (filter_equals rowId rowId row) table) = Inr r"
    unfolding formatTable_rows by (blast dest: list_all2_in_set2)
  with distinct_on_subset show ?thesis by blast
qed

lemma wide_row_exists:
  assumes "formatTable table rowId colId bandAlias = Inr wide" and "f \<in> set table"
  shows "\<exists>row\<in>set table. \<exists>r\<in>set wide. properties row rowId = properties f rowId \<and>
           format_row rowId colId bandAlias
             (row, filter (filter_equals rowId rowId row) table) = Inr r"
proof -
  from assms(2) have "properties f rowId \<in> (\<lambda>f. properties f rowId) ` set (distinct_on rowId table)"
    by (simp only: distinct_on_keys) blast
  then obtain row where row: "row \<in> set (distinct_on rowId table)"
    "properties row rowId = properties f rowId" by force
  with assms(1) obtain r where "r \<in> set wide"
    "format_row rowId colId bandAlias (row, filter (filter_equals rowId rowId row) table) = Inr r"
    unfolding formatTable_rows by (blast dest: list_all2_in_set1)
  with row distinct_on_subset show ?thesis by blast
qed

lemma triplet_cell:
  "triplet rowId colId bandAlias f \<Longrightarrow> \<exists>kv. cell_of colId bandAlias f = Inr kv"
  by (auto simp: triplet_def cell_of_def firstNonNull_def split: option.splits val.splits)

lemma formatTable_total:
  assumes "triplet_table rowId colId bandAlias table"
  shows "\<exists>wide. formatTable table rowId colId bandAlias = Inr wide"
proof -
  have "\<exists>r. format_row rowId colId bandAlias jr = Inr r"
    if "jr \<in> set (saveAll_join (distinct_on rowId table) table (filter_equals rowId rowId))" for jr
  proof -
    obtain row ms where jr: "jr = (row, ms)" by (cases jr)
    with that have "set ms \<subseteq> set table"
      by (auto simp: joined_rows)
    with assms have "\<And>f. f \<in> set ms \<Longrightarrow> \<exists>kv. cell_of colId bandAlias f = Inr kv"
      unfolding triplet_table_def list_all_iff by (blast intro: triplet_cell)
    then obtain kvs where "mapE (cell_of colId bandAlias) ms = Inr kvs"
      using mapE_total by blast
    with jr show ?thesis by (simp add: format_row_def)
  qed
  then show ?thesis
    unfolding formatTable_def Let_def by (rule mapE_total)
qed

lemma formatTable_length:
  "formatTable table rowId colId bandAlias = Inr wide \<Longrightarrow>
     length wide = card ((\<lambda>f. properties f rowId) ` set table)"
  unfolding formatTable_rows by (auto dest: list_all2_lengthD simp: length_distinct_on)

text \<open>
  C4. A table of triplets is always pivoted, and the wide table has as many rows as the
  input has distinct point identifiers (values of \<open>rowId\<close>).
\<close>

theorem formatTable_row_count:
  assumes "triplet_table rowId colId bandAlias table"
  shows "\<exists>wide. formatTable table rowId colId bandAlias = Inr wide \<and>
           length wide = card ((\<lambda>f. properties f rowId) ` set table)"
  using formatTable_total[OF assms] formatTable_length by blast

lemma sample_table_triplets: "triplet_table ''id'' ''imageId'' ''ndvi'' sample_table"
  by (simp add: triplet_table_def triplet_def sample_table_def sample_def)

theorem formatTable_row_count_witness:
  "triplet_table ''id'' ''imageId'' ''ndvi'' sample_table \<and>
   (\<exists>wide. formatTable sample_table ''id'' ''imageId'' ''ndvi'' = Inr wide \<and> length wide = 2)"
proof -
  have "card ((\<lambda>f. properties f ''id'') ` set sample_table) = 2"
    by (simp add: sample_table_def sample_def)
  with formatTable_row_count[OF sample_table_triplets] sample_table_triplets
  show ?thesis by simp
qed

section \<open>The sample table, evaluated\<close>

lemma floor_rat_numeral:
  "\<lfloor>(numeral a :: rat) / numeral b\<rfloor> = numeral a div numeral b"
  using floor_divide_of_int_eq[of "numeral a" "numeral b", where ?'a = rat] by simp

lemmas format_2f_eval =
  format_2f_def floor_rat_numeral string_of_nat.simps digit_char_def

lemma format_2f_sentinel: "format_2f sentinel = ''-9999.00''"
  by (simp add: sentinel_def format_2f_eval)
lemma format_2f_half: "format_2f (1 / 2) = ''0.50''"
  by (simp add: format_2f_eval)
lemma format_2f_eighth: "format_2f (1 / 8) = ''0.13''"
  by (simp add: format_2f_eval)
lemma sample_properties:
  "properties (sample pid iid v) ''id'' = Some (Num pid)"
  "properties (sample pid iid v) ''imageId'' = Some (Str iid)"
  "properties (sample pid iid v) ''ndvi'' = map_option Num v"
  by (simp_all add: sample_def split: option.splits)

lemma sample_rows:
  "distinct_on ''id'' sample_table = [sample 1 ''a'' (Some (1 / 2)), sample 2 ''a'' (Some (1 / 8))]"
  by (simp add: sample_table_def sample_properties)

lemma sample_joined:
  "saveAll_join (distinct_on ''id'' sample_table) sample_table (filter_equals ''id'' ''id'') =
     [(sample 1 ''a'' (Some (1 / 2)), [sample 1 ''a'' (Some (1 / 2)), sample 1 ''b'' None]),
      (sample 2 ''a'' (Some (1 / 8)), [sample 2 ''a'' (Some (1 / 8))])]"
  unfolding sample_rows
  by (simp add: saveAll_join_def filter_equals_def sample_table_def sample_properties)

lemma sample_cells:
  "cell_of ''imageId'' ''ndvi'' (sample 1 ''a'' (Some (1 / 2))) = Inr (''a'', Str ''0.50'')"
  "cell_of ''imageId'' ''ndvi'' (sample 1 ''b'' None) = Inr (''b'', Str ''-9999.00'')"
  "cell_of ''imageId'' ''ndvi'' (sample 2 ''a'' (Some (1 / 8))) = Inr (''a'', Str ''0.13'')"
  by (simp_all add: cell_of_def firstNonNull_def sample_properties
      format_2f_sentinel format_2f_half format_2f_eighth)

lemma sample_wide:
  "\<exists>r1 r2. formatTable sample_table ''id'' ''imageId'' ''ndvi'' = Inr [r1, r2] \<and>
     properties r1 ''id'' = Some (Num 1) \<and> properties r2 ''id'' = Some (Num 2) \<and>
     properties r1 ''a'' = Some (Str ''0.50'') \<and> properties r1 ''b'' = Some (Str ''-9999.00'') \<and>
     properties r2 ''a'' = Some (Str ''0.13'') \<and> properties r2 ''b'' = None"
  unfolding formatTable_def Let_def sample_joined
  by (simp add: format_row_def sample_cells set_dictionary_def select_properties_def
      sample_properties)

lemma sample_table_image_ids: "image_ids ''imageId'' sample_table = {''a'', ''b''}"
  by (auto simp: image_ids_def sample_table_def sample_def)

section \<open>Columns of the wide table\<close>

lemma wide_row_columns:
  assumes "formatTable table rowId colId bandAlias = Inr wide" and "r \<in> set wide"
  shows "dom (properties r) \<subseteq> insert rowId (image_ids colId table)"
proof
  fix k
  assume "k \<in> dom (properties r)"
  then obtain v where v: "properties r k = Some v" by blast
  from wide_row_origin[OF assms] obtain row
    where "format_row rowId colId bandAlias
             (row, filter (filter_equals rowId rowId row) table) = Inr r"
    by blast
  from format_row_cell_origin[OF this v]
  show "k \<in> insert rowId (image_ids colId table)"
    by (auto simp: image_ids_def cell_of_Inr)
qed

text \<open>
  C9. A row of the wide table has no property besides the row identifier and columns
  named by image identifiers of the input: any other property of the input features
  (the band alias, the \<open>colId\<close> property itself, further attributes) reads as null in it.
\<close>

theorem formatTable_drops_other_properties:
  assumes "formatTable table rowId colId bandAlias = Inr wide"
    and "r \<in> set wide" and "k \<noteq> rowId" and "k \<notin> image_ids colId table"
  shows "properties r k = None"
  using wide_row_columns[OF assms(1,2)] assms(3,4) by blast

theorem formatTable_drops_other_properties_witness:
  "\<exists>r1 r2. formatTable sample_table ''id'' ''imageId'' ''ndvi'' = Inr [r1, r2] \<and>
     properties r1 ''ndvi'' = None \<and> properties r1 ''site'' = None \<and>
     properties r1 ''imageId'' = None \<and> properties r2 ''ndvi'' = None \<and>
     properties r2 ''site'' = None \<and> properties r2 ''imageId'' = None"
proof -
  from sample_wide obtain r1 r2
    where wide: "formatTable sample_table ''id'' ''imageId'' ''ndvi'' = Inr [r1, r2]" by blast
  have "properties r k = None"
    if "r \<in> set [r1, r2]" "k \<in> {''ndvi'', ''site'', ''imageId''}" for r k
    using that formatTable_drops_other_properties[OF wide, of r k]
    by (auto simp: sample_table_image_ids)
  with wide show ?thesis by simp
qed

lemma triplet_colId:
  "triplet rowId colId bandAlias f \<Longrightarrow> properties f colId \<noteq> Some (Str rowId)"
  by (auto simp: triplet_def split: option.splits val.splits)

lemma triplet_table_rowId_kept:
  assumes "triplet_table rowId colId bandAlias table"
    and "format_row rowId colId bandAlias
           (row, filter (filter_equals rowId rowId row) table) = Inr r"
  shows "properties r rowId = properties row rowId"
proof (rule format_row_rowId_kept[OF assms(2)])
  fix f
  assume "f \<in> set (filter (filter_equals rowId rowId row) table)"
  then have "f \<in> set table" by simp
  with assms(1) have "triplet rowId colId bandAlias f"
    by (simp add: triplet_table_def list_all_iff)
  then show "properties f colId \<noteq> Some (Str rowId)" by (rule triplet_colId)
qed

lemma wide_columns_cover:
  assumes "formatTable table rowId colId bandAlias = Inr wide"
    and "f \<in> set table" and "properties f colId = Some (Str c)"
  shows "\<exists>r\<in>set wide. c \<in> dom (properties r)"
proof -
  from wide_row_exists[OF assms(1,2)] obtain row r
    where row: "properties row rowId = properties f rowId" and r: "r \<in> set wide"
      and fr: "format_row rowId colId bandAlias
                 (row, filter (filter_equals rowId rowId row) table) = Inr r"
    by blast
  from assms(2) row have "f \<in> set (filter (filter_equals rowId rowId row) table)"
    by (simp add: filter_equals_def)
  from format_row_cell_present[OF fr this assms(3)] r show ?thesis by blast
qed

text \<open>
  C3. A table of triplets is always pivoted, and the value columns of the wide table (the
  property names of its rows other than the row identifier) are exactly the image
  identifiers observed under \<open>colId\<close> in the input.
\<close>

theorem formatTable_columns:
  assumes "triplet_table rowId colId bandAlias table"
  shows "\<exists>wide. formatTable table rowId colId bandAlias = Inr wide \<and>
           value_columns rowId wide = image_ids colId table"
proof -
  from formatTable_total[OF assms] obtain wide
    where wide: "formatTable table rowId colId bandAlias = Inr wide" by blast
  have "value_columns rowId wide \<subseteq> image_ids colId table"
    using wide_row_columns[OF wide] by (auto simp: value_columns_def)
  moreover have "image_ids colId table \<subseteq> value_columns rowId wide"
  proof
    fix c
    assume "c \<in> image_ids colId table"
    then obtain f where f: "f \<in> set table" "properties f colId = Some (Str c)"
      by (auto simp: image_ids_def)
    with assms have "triplet rowId colId bandAlias f"
      by (simp add: triplet_table_def list_all_iff)
    with f(2) have "c \<noteq> rowId" by (auto dest: triplet_colId)
    with wide_columns_cover[OF wide f] show "c \<in> value_columns rowId wide"
      by (auto simp: value_columns_def)
  qed
  ultimately show ?thesis using wide by blast
qed

theorem formatTable_columns_witness:
  "triplet_table ''id'' ''imageId'' ''ndvi'' sample_table \<and>
   (\<exists>wide. formatTable sample_table ''id'' ''imageId'' ''ndvi'' = Inr wide \<and>
      value_columns ''id'' wide = {''a'', ''b''})"
  using formatTable_columns[OF sample_table_triplets] sample_table_triplets
  by (simp add: sample_table_image_ids)

section \<open>Formatted cells\<close>

lemma is_digit_digit_char: "is_digit (digit_char d)"
proof -
  have "d mod 10 < length ''0123456789''" by simp
  then have "''0123456789'' ! (d mod 10) \<in> set ''0123456789''" by (rule nth_mem)
  then show ?thesis by (simp only: is_digit_def digit_char_def)
qed

lemma string_of_nat_digits: "string_of_nat n \<noteq> [] \<and> list_all is_digit (string_of_nat n)"
proof (induction n rule: string_of_nat.induct)
  case (1 n)
  show ?case
  proof (cases "n < 10")
    case True
    then show ?thesis
      by (simp add: string_of_nat.simps[of n] is_digit_digit_char)
  next
    case False
    with 1 show ?thesis
      by (simp add: string_of_nat.simps[of n] is_digit_digit_char)
  qed
qed

lemma minus_not_digit: "is_digit c \<Longrightarrow> c \<noteq> CHR ''-''"
  by (auto simp: is_digit_def)

lemma two_decimals_append:
  assumes "ip \<noteq> []" and "list_all is_digit ip" and "is_digit d1" and "is_digit d2"
    and "sg = '''' \<or> sg = ''-''"
  shows "two_decimals (sg @ ip @ ''.'' @ [d1, d2])"
proof -
  obtain c cs where ip: "ip = c # cs" using assms(1) by (cases ip) auto
  with assms(2) have "c \<noteq> CHR ''-''" by (simp add: minus_not_digit)
  with assms ip show ?thesis
    by (auto simp: two_decimals_def)
qed

lemma two_decimals_format_2f: "two_decimals (format_2f x)"
  unfolding format_2f_def Let_def
  by (rule two_decimals_append) (simp_all add: string_of_nat_digits is_digit_digit_char)


lemma length_takeWhile_nth:
  "distinct xs \<Longrightarrow> i < length xs \<Longrightarrow> length (takeWhile (\<lambda>d. d \<noteq> xs ! i) xs) = i"
proof (induction xs arbitrary: i)
  case Nil
  then show ?case by simp
next
  case (Cons x xs)
  show ?case
  proof (cases i)
    case 0
    then show ?thesis by simp
  next
    case (Suc j)
    with Cons.prems have "xs ! j \<in> set xs" "x \<notin> set xs" by simp_all
    then have "x \<noteq> xs ! j" by blast
    with Cons Suc show ?thesis by simp
  qed
qed

lemma digit_value_digit_char: "digit_value (digit_char d) = d mod 10"
  unfolding digit_value_def digit_char_def
  by (rule length_takeWhile_nth) simp_all

lemma nat_of_digits_snoc: "nat_of_digits (ds @ [c]) = 10 * nat_of_digits ds + digit_value c"
  by (simp add: nat_of_digits_def)

lemma nat_of_digits_string_of_nat: "nat_of_digits (string_of_nat n) = n"
proof (induction n rule: string_of_nat.induct)
  case (1 n)
  show ?case
  proof (cases "n < 10")
    case True
    then show ?thesis
      by (simp add: string_of_nat.simps[of n] nat_of_digits_def digit_value_digit_char)
  next
    case False
    with 1 show ?thesis
      by (simp add: string_of_nat.simps[of n] nat_of_digits_snoc digit_value_digit_char)
  qed
qed

lemma nat_of_digits_pair: "nat_of_digits [c, d] = 10 * digit_value c + digit_value d"
  by (simp add: nat_of_digits_def)

lemma nat_of_two_digits:
  "nat_of_digits [digit_char (h mod 100 div 10), digit_char (h mod 10)] = h mod 100"
proof -
  have "h mod 100 < 100" by simp
  then have "h mod 100 div 10 < 10" by simp
  then have a: "h mod 100 div 10 mod 10 = h mod 100 div 10" by (rule mod_less)
  have b: "h mod 10 mod 10 = h mod 100 mod 10"
    by (simp add: mod_mod_cancel)
  have "nat_of_digits [digit_char (h mod 100 div 10), digit_char (h mod 10)] =
          10 * (h mod 100 div 10) + h mod 100 mod 10"
    by (simp only: nat_of_digits_pair digit_value_digit_char a b)
  also have "\<dots> = h mod 100" by (rule mult_div_mod_eq)
  finally show ?thesis .
qed

lemma point_not_digit: "is_digit c \<Longrightarrow> c \<noteq> CHR ''.''"
  by (auto simp: is_digit_def)

lemma unsigned_value_digits:
  assumes "list_all is_digit ip"
  shows "unsigned_value (ip @ CHR ''.'' # fp) =
           of_nat (nat_of_digits ip) + of_nat (nat_of_digits fp) / 10 ^ length fp"
proof -
  from assms have "\<And>c. c \<in> set ip \<Longrightarrow> c \<noteq> CHR ''.''"
    by (auto simp: list_all_iff dest: point_not_digit)
  then have "takeWhile (\<lambda>c. c \<noteq> CHR ''.'') (ip @ CHR ''.'' # fp) = ip"
    "dropWhile (\<lambda>c. c \<noteq> CHR ''.'') (ip @ CHR ''.'' # fp) = CHR ''.'' # fp"
    by (simp_all add: takeWhile_append2 dropWhile_append2)
  then show ?thesis by (simp add: unsigned_value_def)
qed

lemma unsigned_value_hundredths:
  "unsigned_value (string_of_nat (h div 100) @ ''.'' @
     [digit_char (h mod 100 div 10), digit_char (h mod 10)]) = of_nat h / 100"
proof -
  have "unsigned_value (string_of_nat (h div 100) @ ''.'' @
          [digit_char (h mod 100 div 10), digit_char (h mod 10)]) =
        of_nat (h div 100) + of_nat (h mod 100) / (100 :: rat)"
    using string_of_nat_digits[of "h div 100"]
    by (simp add: unsigned_value_digits nat_of_digits_string_of_nat nat_of_two_digits)
  also have "\<dots> = of_nat h / 100"
  proof -
    have "(of_nat h :: rat) = of_nat (h div 100 * 100 + h mod 100)" by simp
    also have "\<dots> = of_nat (h div 100) * 100 + of_nat (h mod 100)"
      by (simp only: of_nat_add of_nat_mult of_nat_numeral)
    finally show ?thesis by (simp add: add_divide_distrib)
  qed
  finally show ?thesis .
qed

lemma decimal_value_format_2f:
  "decimal_value (format_2f x) =
     (if x < 0 then - 1 else 1) * of_nat (nat \<lfloor>\<bar>x\<bar> * 100 + 1 / 2\<rfloor>) / 100"
proof -
  let ?h = "nat \<lfloor>\<bar>x\<bar> * 100 + 1 / 2\<rfloor>"
  let ?body = "string_of_nat (?h div 100) @ ''.'' @
                 [digit_char (?h mod 100 div 10), digit_char (?h mod 10)]"
  obtain c cs where ip: "string_of_nat (?h div 100) = c # cs" "is_digit c"
    using string_of_nat_digits[of "?h div 100"] by (cases "string_of_nat (?h div 100)") auto
  then have "c \<noteq> CHR ''-''" by (simp add: minus_not_digit)
  with ip(1) have pos: "decimal_value ?body = unsigned_value ?body"
    by (simp add: decimal_value_def)
  have neg: "decimal_value (''-'' @ ?body) = - unsigned_value ?body"
    by (simp add: decimal_value_def)
  show ?thesis
  proof (cases "x < 0")
    case True
    then have "format_2f x = ''-'' @ ?body" by (simp add: format_2f_def Let_def)
    with neg True show ?thesis by (simp only: unsigned_value_hundredths) simp
  next
    case False
    then have "format_2f x = ?body" by (simp add: format_2f_def Let_def)
    with pos False show ?thesis by (simp only: unsigned_value_hundredths) simp
  qed
qed

lemma format_2f_close: "\<bar>decimal_value (format_2f x) - x\<bar> \<le> 1 / 200"
proof -
  define q :: rat where "q = of_int \<lfloor>\<bar>x\<bar> * 100 + 1 / 2\<rfloor>"
  have "0 \<le> \<lfloor>\<bar>x\<bar> * 100 + 1 / 2\<rfloor>" by simp
  then have h: "(of_nat (nat \<lfloor>\<bar>x\<bar> * 100 + 1 / 2\<rfloor>) :: rat) = q"
    unfolding q_def by simp
  have lo: "q \<le> \<bar>x\<bar> * 100 + 1 / 2" unfolding q_def by linarith
  have hi: "\<bar>x\<bar> * 100 + 1 / 2 < q + 1" unfolding q_def by linarith
  show ?thesis
  proof (cases "x < 0")
    case True
    have "decimal_value (format_2f x) = (if x < 0 then - 1 else 1) * q / 100"
      by (simp only: decimal_value_format_2f h)
    with True have "decimal_value (format_2f x) = - q / 100" by simp
    moreover from True lo hi have "- q / 100 - x \<le> 1 / 200" "- (- q / 100 - x) \<le> 1 / 200"
      by linarith+
    then have "\<bar>- q / 100 - x\<bar> \<le> 1 / 200" by (rule abs_leI)
    ultimately show ?thesis by (simp only:)
  next
    case False
    have "decimal_value (format_2f x) = (if x < 0 then - 1 else 1) * q / 100"
      by (simp only: decimal_value_format_2f h)
    with False have "decimal_value (format_2f x) = q / 100" by simp
    moreover from False lo hi have "q / 100 - x \<le> 1 / 200" "- (q / 100 - x) \<le> 1 / 200"
      by linarith+
    then have "\<bar>q / 100 - x\<bar> \<le> 1 / 200" by (rule abs_leI)
    ultimately show ?thesis by (simp only:)
  qed
qed

lemma wide_cell_origin:
  assumes "triplet_table rowId colId bandAlias table"
    and "formatTable table rowId colId bandAlias = Inr wide" and "r \<in> set wide"
    and "properties r k = Some v" and "k \<noteq> rowId"
  shows "\<exists>f\<in>set table. properties f rowId = properties r rowId \<and>
           cell_of colId bandAlias f = Inr (k, v)"
proof -
  from wide_row_origin[OF assms(2,3)] obtain row
    where fr: "format_row rowId colId bandAlias
                 (row, filter (filter_equals rowId rowId row) table) = Inr r"
    by blast
  from format_row_cell_origin[OF fr assms(4)] assms(5) obtain f
    where f: "f \<in> set (filter (filter_equals rowId rowId row) table)"
      "cell_of colId bandAlias f = Inr (k, v)"
    by blast
  from f(1) have "f \<in> set table" "properties f rowId = properties row rowId"
    by (simp_all add: filter_equals_def)
  with triplet_table_rowId_kept[OF assms(1) fr] f(2) show ?thesis by auto
qed

text \<open>
  C5. Every value cell of the wide table of a table of triplets is the \<open>%.2f\<close> rendering
  of the number of a triplet of that point and that image, of its value or of the sentinel
  when the value is null: a string with exactly two digits after the decimal point, and
  the number that the string denotes is within half a hundredth of the number rendered.
\<close>

theorem formatTable_cells_fixed_precision:
  assumes "triplet_table rowId colId bandAlias table"
  shows "\<exists>wide. formatTable table rowId colId bandAlias = Inr wide \<and>
           (\<forall>r\<in>set wide. \<forall>k v. k \<noteq> rowId \<and> properties r k = Some v \<longrightarrow>
              (\<exists>f\<in>set table. properties f rowId = properties r rowId \<and>
                 properties f colId = Some (Str k) \<and>
                 (\<exists>x s. (properties f bandAlias = None \<and> x = sentinel \<or>
                           properties f bandAlias = Some (Num x)) \<and>
                        v = Str s \<and> s = format_2f x \<and> two_decimals s \<and>
                        \<bar>decimal_value s - x\<bar> \<le> 1 / 200)))"
proof -
  from formatTable_total[OF assms] obtain wide
    where wide: "formatTable table rowId colId bandAlias = Inr wide" by blast
  have "\<exists>f\<in>set table. properties f rowId = properties r rowId \<and>
           properties f colId = Some (Str k) \<and>
           (\<exists>x s. (properties f bandAlias = None \<and> x = sentinel \<or>
                     properties f bandAlias = Some (Num x)) \<and>
                  v = Str s \<and> s = format_2f x \<and> two_decimals s \<and>
                  \<bar>decimal_value s - x\<bar> \<le> 1 / 200)"
    if "r \<in> set wide" "k \<noteq> rowId" "properties r k = Some v" for r k v
  proof -
    from wide_cell_origin[OF assms wide that(1,3,2)] obtain f
      where f: "f \<in> set table" "properties f rowId = properties r rowId"
        "cell_of colId bandAlias f = Inr (k, v)"
      by blast
    from f(3) have col: "properties f colId = Some (Str k)"
      and "properties f bandAlias = None \<and> v = Str (format_2f sentinel) \<or>
         (\<exists>x. properties f bandAlias = Some (Num x) \<and> v = Str (format_2f x))"
      by (simp_all only: cell_of_Inr)
    then obtain x where x: "properties f bandAlias = None \<and> x = sentinel \<or>
        properties f bandAlias = Some (Num x)" and v: "v = Str (format_2f x)"
      by blast
    have "two_decimals (format_2f x)" "\<bar>decimal_value (format_2f x) - x\<bar> \<le> 1 / 200"
      by (rule two_decimals_format_2f, rule format_2f_close)
    with x v have "\<exists>x s. (properties f bandAlias = None \<and> x = sentinel \<or>
                     properties f bandAlias = Some (Num x)) \<and>
                  v = Str s \<and> s = format_2f x \<and> two_decimals s \<and>
                  \<bar>decimal_value s - x\<bar> \<le> 1 / 200"
      by blast
    with f(1,2) col show ?thesis by blast
  qed
  with wide show ?thesis by blast
qed

lemma sample_table_member:
  assumes "f \<in> set sample_table" and "properties f ''id'' = Some (Num 1)"
    and "properties f ''imageId'' = Some (Str c)"
  shows "c = ''a'' \<and> properties f ''ndvi'' = Some (Num (1 / 2)) \<or>
         c = ''b'' \<and> properties f ''ndvi'' = None"
  using assms by (auto simp: sample_table_def sample_properties)

theorem formatTable_cells_fixed_precision_witness:
  "triplet_table ''id'' ''imageId'' ''ndvi'' sample_table \<and>
   (\<exists>r1 r2. formatTable sample_table ''id'' ''imageId'' ''ndvi'' = Inr [r1, r2] \<and>
      properties r1 ''a'' = Some (Str ''0.50'') \<and> two_decimals ''0.50'' \<and>
      \<bar>decimal_value ''0.50'' - 1 / 2\<bar> \<le> 1 / 200 \<and>
      properties r1 ''b'' = Some (Str ''-9999.00'') \<and> two_decimals ''-9999.00'' \<and>
      \<bar>decimal_value ''-9999.00'' - sentinel\<bar> \<le> 1 / 200)"
proof -
  from sample_wide obtain r1 r2
    where wide: "formatTable sample_table ''id'' ''imageId'' ''ndvi'' = Inr [r1, r2]"
      and id: "properties r1 ''id'' = Some (Num 1)"
      and cells: "properties r1 ''a'' = Some (Str ''0.50'')"
        "properties r1 ''b'' = Some (Str ''-9999.00'')"
    by blast
  from formatTable_cells_fixed_precision[OF sample_table_triplets] wide
  have fixed: "\<forall>r\<in>set [r1, r2]. \<forall>k v. k \<noteq> ''id'' \<and> properties r k = Some v \<longrightarrow>
      (\<exists>f\<in>set sample_table. properties f ''id'' = properties r ''id'' \<and>
         properties f ''imageId'' = Some (Str k) \<and>
         (\<exists>x s. (properties f ''ndvi'' = None \<and> x = sentinel \<or>
                   properties f ''ndvi'' = Some (Num x)) \<and>
                v = Str s \<and> s = format_2f x \<and> two_decimals s \<and>
                \<bar>decimal_value s - x\<bar> \<le> 1 / 200))"
    by simp
  have r1: "r1 \<in> set [r1, r2]" by simp
  from fixed[THEN bspec, OF r1, THEN spec, of "''a''", THEN spec, of "Str ''0.50''"] cells(1) id
  obtain f x where f: "f \<in> set sample_table" "properties f ''id'' = Some (Num 1)"
      "properties f ''imageId'' = Some (Str ''a'')"
    and fx: "properties f ''ndvi'' = None \<and> x = sentinel \<or> properties f ''ndvi'' = Some (Num x)"
    and a: "two_decimals ''0.50''" and ax: "\<bar>decimal_value ''0.50'' - x\<bar> \<le> 1 / 200"
    by auto
  from sample_table_member[OF f] have "properties f ''ndvi'' = Some (Num (1 / 2))" by simp
  with fx have x: "x = 1 / 2" by simp
  from fixed[THEN bspec, OF r1, THEN spec, of "''b''", THEN spec, of "Str ''-9999.00''"] cells(2) id
  obtain g y where g: "g \<in> set sample_table" "properties g ''id'' = Some (Num 1)"
      "properties g ''imageId'' = Some (Str ''b'')"
    and gy: "properties g ''ndvi'' = None \<and> y = sentinel \<or> properties g ''ndvi'' = Some (Num y)"
    and b: "two_decimals ''-9999.00''" and "\<bar>decimal_value ''-9999.00'' - y\<bar> \<le> 1 / 200"
    by auto
  from sample_table_member[OF g] have "properties g ''ndvi'' = None" by simp
  with gy have y: "y = sentinel" by simp
  note ax = ax[unfolded x] and bx = \<open>\<bar>decimal_value ''-9999.00'' - y\<bar> \<le> 1 / 200\<close>[unfolded y]
  from wide cells a b ax bx sample_table_triplets show ?thesis by blast
qed

section \<open>The sentinel\<close>

text \<open>
  C2, as the code has it. When the input has a triplet for point \<open>p\<close> and image \<open>c\<close> and
  the point is not measured there (no such triplet has a value), the wide table has a row
  for \<open>p\<close>, and the cell of that row in column \<open>c\<close> is the sentinel, formatted like
  every other cell.
\<close>

theorem formatTable_sentinel_for_null:
  assumes "triplet_table rowId colId bandAlias table"
    and "has_triplet table rowId colId p c"
    and "\<not> measured table rowId colId bandAlias p c"
  shows "\<exists>wide. formatTable table rowId colId bandAlias = Inr wide \<and>
           (\<exists>r\<in>set wide. properties r rowId = Some p) \<and>
           (\<forall>r\<in>set wide. properties r rowId = Some p \<longrightarrow>
              properties r c = Some (Str ''-9999.00''))"
proof -
  from formatTable_total[OF assms(1)] obtain wide
    where wide: "formatTable table rowId colId bandAlias = Inr wide" by blast
  from assms(2) obtain f
    where f: "f \<in> set table" "properties f rowId = Some p" "properties f colId = Some (Str c)"
    unfolding has_triplet_def by blast
  have cell: "properties r c = Some (Str ''-9999.00'')"
    if fr: "format_row rowId colId bandAlias
              (row, filter (filter_equals rowId rowId row) table) = Inr r"
      and p: "properties row rowId = Some p" for row r
  proof -
    from f p have "f \<in> set (filter (filter_equals rowId rowId row) table)"
      by (simp add: filter_equals_def)
    from format_row_cell_present[OF fr this f(3)] obtain g v
      where g: "g \<in> set (filter (filter_equals rowId rowId row) table)"
        "cell_of colId bandAlias g = Inr (c, v)" and v: "properties r c = Some v"
      by blast
    from g(1) p have "g \<in> set table" "properties g rowId = Some p"
      by (simp_all add: filter_equals_def)
    moreover from g(2) have "properties g colId = Some (Str c)"
      by (simp add: cell_of_Inr)
    ultimately have "properties g bandAlias = None"
      using assms(3) unfolding measured_def by blast
    with g(2) have "v = Str (format_2f sentinel)"
      by (simp add: cell_of_Inr)
    with v show ?thesis by (simp add: format_2f_sentinel)
  qed
  have "\<exists>r\<in>set wide. properties r rowId = Some p"
  proof -
    from wide_row_exists[OF wide f(1)] obtain row r
      where "properties row rowId = properties f rowId" "r \<in> set wide"
        "format_row rowId colId bandAlias
           (row, filter (filter_equals rowId rowId row) table) = Inr r"
      by blast
    with triplet_table_rowId_kept[OF assms(1)] f(2) show ?thesis by force
  qed
  moreover have "properties r c = Some (Str ''-9999.00'')"
    if "r \<in> set wide" "properties r rowId = Some p" for r
  proof -
    from wide_row_origin[OF wide that(1)] obtain row
      where fr: "format_row rowId colId bandAlias
                   (row, filter (filter_equals rowId rowId row) table) = Inr r"
      by blast
    with triplet_table_rowId_kept[OF assms(1)] that(2) have "properties row rowId = Some p"
      by force
    with fr show ?thesis by (rule cell)
  qed
  ultimately show ?thesis using wide by blast
qed

lemma sample_table_pairs:
  "has_triplet sample_table ''id'' ''imageId'' (Num 1) ''b''"
  "\<not> measured sample_table ''id'' ''imageId'' ''ndvi'' (Num 1) ''b''"
  "\<not> has_triplet sample_table ''id'' ''imageId'' (Num 2) ''b''"
  "\<not> measured sample_table ''id'' ''imageId'' ''ndvi'' (Num 2) ''b''"
  by (simp_all add: has_triplet_def measured_def sample_table_def sample_properties)

theorem formatTable_sentinel_for_null_witness:
  "triplet_table ''id'' ''imageId'' ''ndvi'' sample_table \<and>
   has_triplet sample_table ''id'' ''imageId'' (Num 1) ''b'' \<and>
   \<not> measured sample_table ''id'' ''imageId'' ''ndvi'' (Num 1) ''b'' \<and>
   (\<exists>r1 r2. formatTable sample_table ''id'' ''imageId'' ''ndvi'' = Inr [r1, r2] \<and>
      properties r1 ''id'' = Some (Num 1) \<and> properties r1 ''b'' = Some (Str ''-9999.00''))"
proof -
  from sample_wide obtain r1 r2
    where wide: "formatTable sample_table ''id'' ''imageId'' ''ndvi'' = Inr [r1, r2]"
      and r1: "properties r1 ''id'' = Some (Num 1)"
    by blast
  from formatTable_sentinel_for_null[OF sample_table_triplets sample_table_pairs(1,2)] wide
  have "\<forall>r\<in>set [r1, r2]. properties r ''id'' = Some (Num 1) \<longrightarrow>
          properties r ''b'' = Some (Str ''-9999.00'')"
    by simp
  with r1 have "properties r1 ''b'' = Some (Str ''-9999.00'')" by simp
  with wide r1 sample_table_triplets sample_table_pairs(1,2) show ?thesis by blast
qed

text \<open>
  C2, as stated, fails where the input has no triplet at all for the pair: in the sample
  table point 2 has no triplet for image \<open>b\<close>, so it has no value there; \<open>b\<close> is a
  column of the wide table, and the row of point 2 has no cell in it.
\<close>

theorem formatTable_no_sentinel_counterexample:
  "\<not> isl (formatTable sample_table ''id'' ''imageId'' ''ndvi'') \<and>
   properties (projr (formatTable sample_table ''id'' ''imageId'' ''ndvi'') ! 1) ''id'' = Some (Num 2) \<and>
   ''b'' \<in> value_columns ''id'' (projr (formatTable sample_table ''id'' ''imageId'' ''ndvi'')) \<and>
   \<not> measured sample_table ''id'' ''imageId'' ''ndvi'' (Num 2) ''b'' \<and>
   properties (projr (formatTable sample_table ''id'' ''imageId'' ''ndvi'') ! 1) ''b'' = None"
proof -
  from sample_wide obtain r1 r2
    where wide: "formatTable sample_table ''id'' ''imageId'' ''ndvi'' = Inr [r1, r2]"
      and cells: "properties r2 ''id'' = Some (Num 2)" "properties r2 ''b'' = None"
        "properties r1 ''b'' = Some (Str ''-9999.00'')"
    by blast
  from cells(3) have "''b'' \<in> value_columns ''id'' [r1, r2]"
    by (auto simp: value_columns_def)
  with wide cells sample_table_pairs(4) show ?thesis by simp
qed

section \<open>Scaling\<close>

lemma scaledBand_nth:
  "i < length images \<Longrightarrow>
     scaledBand multiplier images ! i =
       copyProperties (multiply (images ! i) multiplier) (images ! i)
         [''system:time_start'', ''system:time_end'']"
  by (simp add: scaledBand_def)

lemma map_of_scaled_bands:
  "map_of (map (\<lambda>(name, r). (name, \<lambda>p. map_option (\<lambda>v. v * m) (r p))) bs) band =
     map_option (\<lambda>r p. map_option (\<lambda>v. v * m) (r p)) (map_of bs band)"
  by (induction bs) auto

lemma pixel_value_multiply:
  "pixel_value (multiply img m) band p = map_option (\<lambda>v. m * v) (pixel_value img band p)"
  by (simp add: pixel_value_def multiply_def map_of_scaled_bands mult.commute
      split: option.splits)

lemma pixel_value_copyProperties:
  "pixel_value (copyProperties destination source names) band p = pixel_value destination band p"
  by (simp add: pixel_value_def copyProperties_def)

lemma select_Inr:
  "select band img = Inr img' \<longleftrightarrow>
     (\<exists>r. map_of (bands img) band = Some r \<and> img' = img\<lparr>bands := [(band, r)]\<rparr>)"
  by (auto simp: select_def split: option.splits)

lemma filtered_Inr:
  "filtered pf imageCollectionId startDate endDate band = Inr images \<longleftrightarrow>
     list_all2 (\<lambda>img img'. select band img = Inr img')
       (filterDate startDate endDate (image_collection pf imageCollectionId)) images"
  by (simp add: filtered_def mapE_Inr_iff)

lemma filtered_single_band:
  assumes "filtered pf imageCollectionId startDate endDate band = Inr images"
    and "i < length images"
  shows "map fst (bands (images ! i)) = [band]"
proof -
  from assms(2) have "images ! i \<in> set images" by simp
  with assms(1) obtain img where "select band img = Inr (images ! i)"
    unfolding filtered_Inr by (blast dest: list_all2_in_set2)
  then show ?thesis by (auto simp: select_Inr)
qed

text \<open>
  C7. In every image that the scaling step of \<open>exportTimeSeries\<close> makes from an image of
  the date-filtered collection, each pixel of the selected band (the only band the image
  has) is the multiplier times the pixel of the original; a masked pixel stays masked.
\<close>

theorem scaledBand_pixels:
  assumes "filtered pf imageCollectionId startDate endDate band = Inr images"
    and "i < length images"
  shows "map fst (bands (images ! i)) = [band] \<and>
         pixel_value (scaledBand multiplier images ! i) band p =
           map_option (\<lambda>v. multiplier * v) (pixel_value (images ! i) band p)"
  using assms
  by (simp add: filtered_single_band scaledBand_nth pixel_value_copyProperties
      pixel_value_multiply)

lemma sample_filtered:
  "filtered sample_platform name 0 100 ''NDVI'' =
     Inr [(scene ''a'' 0 1000)\<lparr>bands := [(''NDVI'', sample_raster 1000)]\<rparr>,
          (scene ''b'' 16 2000)\<lparr>bands := [(''NDVI'', sample_raster 2000)]\<rparr>]"
  by (simp add: filtered_def sample_platform_def filterDate_def select_def scene_def)

theorem scaledBand_pixels_witness:
  "\<exists>images. filtered sample_platform ''MODIS/006/MOD13Q1'' 0 100 ''NDVI'' = Inr images \<and>
     0 < length images \<and>
     pixel_value (images ! 0) ''NDVI'' (1, 0) = Some 1001 \<and>
     pixel_value (scaledBand (1 / 10000) images ! 0) ''NDVI'' (1, 0) = Some (1001 / 10000) \<and>
     pixel_value (images ! 0) ''NDVI'' (2, 0) = None \<and>
     pixel_value (scaledBand (1 / 10000) images ! 0) ''NDVI'' (2, 0) = None"
proof -
  let ?images = "[(scene ''a'' 0 1000)\<lparr>bands := [(''NDVI'', sample_raster 1000)]\<rparr>,
                  (scene ''b'' 16 2000)\<lparr>bands := [(''NDVI'', sample_raster 2000)]\<rparr>]"
  have f: "filtered sample_platform ''MODIS/006/MOD13Q1'' 0 100 ''NDVI'' = Inr ?images"
    by (rule sample_filtered)
  have len: "0 < length ?images" by simp
  have px: "pixel_value (?images ! 0) ''NDVI'' (1, 0) = Some 1001"
    "pixel_value (?images ! 0) ''NDVI'' (2, 0) = None"
    by (simp_all add: pixel_value_def sample_raster_def)
  from scaledBand_pixels[OF f len, of "1 / 10000" "(1, 0)"] px(1)
  have a: "pixel_value (scaledBand (1 / 10000) ?images ! 0) ''NDVI'' (1, 0) = Some (1001 / 10000)"
    by simp
  from scaledBand_pixels[OF f len, of "1 / 10000" "(2, 0)"] px(2)
  have b: "pixel_value (scaledBand (1 / 10000) ?images ! 0) ''NDVI'' (2, 0) = None"
    by simp
  from f len px a b show ?thesis by blast
qed

text \<open>
  C8. The scaled image carries the \<open>system:time_start\<close> and \<open>system:time_end\<close> of the
  image it is made from.
\<close>

theorem scaledBand_time_properties:
  assumes "i < length images"
  shows "image_properties (scaledBand multiplier images ! i) ''system:time_start'' =
           image_properties (images ! i) ''system:time_start'' \<and>
         image_properties (scaledBand multiplier images ! i) ''system:time_end'' =
           image_properties (images ! i) ''system:time_end''"
  using assms
  by (simp add: scaledBand_nth copyProperties_def multiply_def map_add_def restrict_map_def
      split: option.splits)

theorem scaledBand_time_properties_witness:
  "(0::nat) < length [scene ''a'' 0 1000] \<and>
   image_properties (scaledBand (1 / 10000) [scene ''a'' 0 1000] ! 0) ''system:time_start'' =
     Some (Num 0) \<and>
   image_properties (scaledBand (1 / 10000) [scene ''a'' 0 1000] ! 0) ''system:time_end'' =
     Some (Num 16)"
  using scaledBand_time_properties[of 0 "[scene ''a'' 0 1000]" "1 / 10000"]
  by (simp add: scene_def)

section \<open>The triplets\<close>

lemma select_image_id: "select band img = Inr img' \<Longrightarrow> image_id img' = image_id img"
  by (auto simp: select_Inr)

lemma filtered_image_ids:
  assumes "filtered pf imageCollectionId startDate endDate band = Inr images"
  shows "map image_id images =
           map image_id (filterDate startDate endDate (image_collection pf imageCollectionId))"
proof -
  have "list_all2 (\<lambda>img img'. select band img = Inr img') xs ys \<Longrightarrow>
          map image_id ys = map image_id xs" for xs ys
    by (induction rule: list_all2_induct) (simp_all add: select_image_id)
  with assms show ?thesis by (simp only: filtered_Inr)
qed

lemma scaledBand_image_ids: "map image_id (scaledBand multiplier images) = map image_id images"
  by (simp add: scaledBand_def copyProperties_def multiply_def)

lemma pair_of_triplet:
  assumes "bandAlias \<noteq> ''id''"
  shows "map pair_of (triplets pf featureCollection bandAlias scale images) =
           concat (map (\<lambda>img. map (\<lambda>f. (properties f ''id'', Some (Str (image_id img))))
                                 featureCollection) images)"
proof -
  have "pair_of (set_property
          (case reduce_mean pf img (geometry f) scale of
             None \<Rightarrow> f
           | Some v \<Rightarrow> f\<lparr>properties := (properties f)(bandAlias \<mapsto> Num v)\<rparr>)
          ''imageId'' (Str (image_id img))) =
        (properties f ''id'', Some (Str (image_id img)))" for img f
    using assms by (simp add: pair_of_def set_property_def split: option.splits)
  then show ?thesis
    by (simp add: triplets_def reduceRegions_def map_concat comp_def)
qed

lemma distinct_pairs:
  assumes "distinct ps" and "distinct ids"
  shows "distinct (concat (map (\<lambda>i. map (\<lambda>p. (p, Some (Str i))) ps) ids))"
  using assms(2)
proof (induction ids)
  case Nil
  show ?case by simp
next
  case (Cons i ids)
  from assms(1) have "distinct (map (\<lambda>p. (p, Some (Str i))) ps)"
    by (simp add: distinct_map inj_on_def)
  with Cons show ?case by auto
qed

text \<open>
  C6, as the code has it. When the point features have distinct values of \<open>id\<close>, the
  images of the collection have distinct identifiers, and the band alias is not the name
  \<open>id\<close> of the point identifier, the table of triplets that \<open>exportTimeSeries\<close> hands to
  \<open>formatTable\<close> has no two triplets with the same pair of point identifier and image
  identifier.
\<close>

theorem triplets_one_per_pair:
  assumes "distinct (map (\<lambda>f. properties f ''id'') featureCollection)"
    and "distinct (map image_id (image_collection pf imageCollectionId))"
    and "bandAlias \<noteq> ''id''"
    and "filtered pf imageCollectionId startDate endDate band = Inr images"
  shows "distinct (map pair_of
           (triplets pf featureCollection bandAlias scale (scaledBand multiplier images)))"
proof -
  from assms(2) have "distinct (map image_id images)"
    unfolding filtered_image_ids[OF assms(4)] filterDate_def by (rule distinct_map_filter)
  then have ids: "distinct (map image_id (scaledBand multiplier images))"
    by (simp only: scaledBand_image_ids)
  have "map pair_of (triplets pf featureCollection bandAlias scale (scaledBand multiplier images)) =
          concat (map (\<lambda>i. map (\<lambda>p. (p, Some (Str i))) (map (\<lambda>f. properties f ''id'') featureCollection))
                    (map image_id (scaledBand multiplier images)))"
    by (simp add: pair_of_triplet[OF assms(3)] comp_def)
  with distinct_pairs[OF assms(1) ids] show ?thesis by simp
qed

lemma sample_points_distinct: "distinct (map (\<lambda>f. properties f ''id'') sample_points)"
  by (simp add: sample_points_def point_def)

lemma sample_images_distinct: "distinct (map image_id (image_collection sample_platform name))"
  by (simp add: sample_platform_def scene_def)

theorem triplets_one_per_pair_witness:
  "distinct (map (\<lambda>f. properties f ''id'') sample_points) \<and>
   distinct (map image_id (image_collection sample_platform ''MODIS/006/MOD13Q1'')) \<and>
   ''ndvi'' \<noteq> ''id'' \<and>
   (\<exists>images. filtered sample_platform ''MODIS/006/MOD13Q1'' 0 100 ''NDVI'' = Inr images \<and>
      distinct (map pair_of
        (triplets sample_platform sample_points ''ndvi'' 250 (scaledBand (1 / 10000) images))) \<and>
      length (triplets sample_platform sample_points ''ndvi'' 250 (scaledBand (1 / 10000) images)) = 6)"
proof -
  have ne: "''ndvi'' \<noteq> ''id''" by simp
  note d = triplets_one_per_pair[OF sample_points_distinct sample_images_distinct ne
      sample_filtered, of 250 "1 / 10000"]
  have "length (triplets sample_platform sample_points ''ndvi'' 250
          (scaledBand (1 / 10000)
            [(scene ''a'' 0 1000)\<lparr>bands := [(''NDVI'', sample_raster 1000)]\<rparr>,
             (scene ''b'' 16 2000)\<lparr>bands := [(''NDVI'', sample_raster 2000)]\<rparr>])) = 6"
    by (simp add: triplets_def reduceRegions_def scaledBand_def sample_points_def)
  with d sample_points_distinct sample_images_distinct sample_filtered show ?thesis
    by blast
qed

text \<open>
  C6, as stated, fails when the band alias is the name \<open>id\<close> of the point identifier:
  the mean is then written over the identifier of each point. The two points of
  \<open>close_points\<close> have different identifiers and lie in the same pixel, the images have
  distinct identifiers, and both points get the pair of the same mean and the same image.
\<close>

theorem triplets_alias_id_counterexample:
  "distinct (map (\<lambda>f. properties f ''id'') close_points) \<and>
   distinct (map image_id (image_collection sample_platform ''MODIS/006/MOD13Q1'')) \<and>
   filtered sample_platform ''MODIS/006/MOD13Q1'' 0 100 ''NDVI'' =
     Inr [(scene ''a'' 0 1000)\<lparr>bands := [(''NDVI'', sample_raster 1000)]\<rparr>,
          (scene ''b'' 16 2000)\<lparr>bands := [(''NDVI'', sample_raster 2000)]\<rparr>] \<and>
   map pair_of (triplets sample_platform close_points ''id'' 250
      (scaledBand (1 / 10000)
         [(scene ''a'' 0 1000)\<lparr>bands := [(''NDVI'', sample_raster 1000)]\<rparr>,
          (scene ''b'' 16 2000)\<lparr>bands := [(''NDVI'', sample_raster 2000)]\<rparr>])) =
     [(Some (Num (1001 / 10000)), Some (Str ''a'')), (Some (Num (1001 / 10000)), Some (Str ''a'')),
      (Some (Num (2001 / 10000)), Some (Str ''b'')), (Some (Num (2001 / 10000)), Some (Str ''b''))] \<and>
   \<not> distinct (map pair_of (triplets sample_platform close_points ''id'' 250
      (scaledBand (1 / 10000)
         [(scene ''a'' 0 1000)\<lparr>bands := [(''NDVI'', sample_raster 1000)]\<rparr>,
          (scene ''b'' 16 2000)\<lparr>bands := [(''NDVI'', sample_raster 2000)]\<rparr>])))"
proof -
  have ids: "distinct (map (\<lambda>f. properties f ''id'') close_points)"
    by (simp add: close_points_def point_def)
  have pairs: "map pair_of (triplets sample_platform close_points ''id'' 250
      (scaledBand (1 / 10000)
         [(scene ''a'' 0 1000)\<lparr>bands := [(''NDVI'', sample_raster 1000)]\<rparr>,
          (scene ''b'' 16 2000)\<lparr>bands := [(''NDVI'', sample_raster 2000)]\<rparr>])) =
     [(Some (Num (1001 / 10000)), Some (Str ''a'')), (Some (Num (1001 / 10000)), Some (Str ''a'')),
      (Some (Num (2001 / 10000)), Some (Str ''b'')), (Some (Num (2001 / 10000)), Some (Str ''b''))]"
    by (simp add: triplets_def reduceRegions_def scaledBand_def copyProperties_def multiply_def
        sample_platform_def close_points_def point_def pair_of_def set_property_def scene_def
        sample_raster_def floor_rat_numeral)
  have "\<not> distinct (map pair_of (triplets sample_platform close_points ''id'' 250
      (scaledBand (1 / 10000)
         [(scene ''a'' 0 1000)\<lparr>bands := [(''NDVI'', sample_raster 1000)]\<rparr>,
          (scene ''b'' 16 2000)\<lparr>bands := [(''NDVI'', sample_raster 2000)]\<rparr>])))"
    unfolding pairs by simp
  with ids pairs sample_images_distinct sample_filtered show ?thesis by blast
qed

section \<open>The table that exportTimeSeries pivots\<close>

lemma triplets_member:
  "t \<in> set (triplets pf featureCollection bandAlias scale images) \<longleftrightarrow>
     (\<exists>img\<in>set images. \<exists>f\<in>set featureCollection.
        t = set_property
              (case reduce_mean pf img (geometry f) scale of
                 None \<Rightarrow> f
               | Some v \<Rightarrow> f\<lparr>properties := (properties f)(bandAlias \<mapsto> Num v)\<rparr>)
              ''imageId'' (Str (image_id img)))"
  by (auto simp: triplets_def reduceRegions_def)

lemma triplets_triplet_table:
  assumes points: "\<And>f. f \<in> set featureCollection \<Longrightarrow>
      properties f ''id'' \<noteq> None \<and> properties f bandAlias = None"
    and names: "bandAlias \<noteq> ''id''" "bandAlias \<noteq> ''imageId''"
    and ids: "\<And>img. img \<in> set images \<Longrightarrow> image_id img \<noteq> ''id''"
  shows "triplet_table ''id'' ''imageId'' bandAlias
           (triplets pf featureCollection bandAlias scale images)"
proof -
  have "triplet ''id'' ''imageId'' bandAlias t"
    if "t \<in> set (triplets pf featureCollection bandAlias scale images)" for t
  proof -
    from that obtain img f where "img \<in> set images" "f \<in> set featureCollection"
      and t: "t = set_property
              (case reduce_mean pf img (geometry f) scale of
                 None \<Rightarrow> f
               | Some v \<Rightarrow> f\<lparr>properties := (properties f)(bandAlias \<mapsto> Num v)\<rparr>)
              ''imageId'' (Str (image_id img))"
      unfolding triplets_member by blast
    with points[of f] ids[of img] names show ?thesis
      by (simp add: triplet_def set_property_def split: option.splits)
  qed
  then show ?thesis by (simp add: triplet_table_def list_all_iff)
qed

lemma triplets_complete:
  assumes "f \<in> set featureCollection" and "properties f ''id'' = Some p"
    and "img \<in> set images" and "bandAlias \<noteq> ''id''"
  shows "has_triplet (triplets pf featureCollection bandAlias scale images)
           ''id'' ''imageId'' p (image_id img)"
proof -
  let ?t = "set_property
              (case reduce_mean pf img (geometry f) scale of
                 None \<Rightarrow> f
               | Some v \<Rightarrow> f\<lparr>properties := (properties f)(bandAlias \<mapsto> Num v)\<rparr>)
              ''imageId'' (Str (image_id img))"
  from assms(1,3) have "?t \<in> set (triplets pf featureCollection bandAlias scale images)"
    unfolding triplets_member by blast
  moreover from assms(2,4) have "properties ?t ''id'' = Some p"
    "properties ?t ''imageId'' = Some (Str (image_id img))"
    by (simp_all add: set_property_def split: option.splits)
  ultimately show ?thesis unfolding has_triplet_def by blast
qed

section \<open>Decimal numerals\<close>

lemma digit_char_inj: "digit_char a = digit_char b \<Longrightarrow> a mod 10 = b mod 10"
proof -
  assume "digit_char a = digit_char b"
  moreover have "distinct ''0123456789''" by simp
  moreover have "a mod 10 < length ''0123456789''" "b mod 10 < length ''0123456789''" by simp_all
  ultimately show ?thesis
    unfolding digit_char_def by (simp only: nth_eq_iff_index_eq)
qed

lemma string_of_nat_inj: "string_of_nat n = string_of_nat m \<Longrightarrow> n = m"
proof (induction n arbitrary: m rule: string_of_nat.induct)
  case (1 n)
  note eq = \<open>string_of_nat n = string_of_nat m\<close>
  have ne: "string_of_nat k \<noteq> []" for k
    using string_of_nat_digits[of k] by simp
  show ?case
  proof (cases "n < 10")
    case n: True
    show ?thesis
    proof (cases "m < 10")
      case True
      with n eq have "digit_char n = digit_char m"
        by (simp add: string_of_nat.simps[of n] string_of_nat.simps[of m])
      then have "n mod 10 = m mod 10" by (rule digit_char_inj)
      with n True show ?thesis by simp
    next
      case False
      with n eq ne[of "m div 10"] show ?thesis
        by (simp add: string_of_nat.simps[of n] string_of_nat.simps[of m])
    qed
  next
    case n: False
    show ?thesis
    proof (cases "m < 10")
      case True
      with n eq ne[of "n div 10"] show ?thesis
        by (simp add: string_of_nat.simps[of n] string_of_nat.simps[of m])
    next
      case False
      with n eq have "string_of_nat (n div 10) = string_of_nat (m div 10)"
        and d: "digit_char (n mod 10) = digit_char (m mod 10)"
        by (simp_all add: string_of_nat.simps[of n] string_of_nat.simps[of m])
      with "1.IH"[OF n] have "n div 10 = m div 10" by blast
      moreover from d have "n mod 10 = m mod 10"
        by (auto dest: digit_char_inj)
      ultimately show ?thesis
        by (metis div_mult_mod_eq)
    qed
  qed
qed

lemma chunk_prefix_inj: "chunk_prefix i bandAlias = chunk_prefix j bandAlias \<Longrightarrow> i = j"
proof -
  assume "chunk_prefix i bandAlias = chunk_prefix j bandAlias"
  then have "string_of_nat (i + 1) @ (''_'' @ bandAlias) = string_of_nat (j + 1) @ (''_'' @ bandAlias)"
    by (simp add: chunk_prefix_def)
  then have "string_of_nat (i + 1) = string_of_nat (j + 1)"
    by (simp only: append_same_eq)
  then show ?thesis by (auto dest: string_of_nat_inj)
qed


section \<open>The chunk loop\<close>

lemma exportTimeSeries_effects:
  "tasks (exportTimeSeries pf imageCollectionId featureCollection startDate endDate band bandAlias
            scale multiplier outputFolder fileNamePrefix s) =
     tasks s @
       [\<lparr>task_collection = timeSeriesResults pf imageCollectionId featureCollection startDate
                             endDate band bandAlias scale multiplier,
         task_description = fileNamePrefix, task_folder = outputFolder,
         task_fileNamePrefix = fileNamePrefix, task_fileFormat = ''CSV''\<rparr>]"
  "length (console (exportTimeSeries pf imageCollectionId featureCollection startDate endDate band
                      bandAlias scale multiplier outputFolder fileNamePrefix s)) =
     length (console s) + 1"
  by (simp_all add: exportTimeSeries_def Let_def)

lemma divide_loop_tasks:
  "tasks (divide_loop pf collection numChunks imageCollectionId startDate endDate band bandAlias
            scale multiplier outputFolder chunkSize i s) =
     tasks s @
       map (\<lambda>j. \<lparr>task_collection = timeSeriesResults pf imageCollectionId
                                       (chunk_subset collection chunkSize j) startDate endDate band
                                       bandAlias scale multiplier,
                   task_description = chunk_prefix j bandAlias, task_folder = outputFolder,
                   task_fileNamePrefix = chunk_prefix j bandAlias, task_fileFormat = ''CSV''\<rparr>)
         [i..<numChunks]"
proof (induction pf collection numChunks imageCollectionId startDate endDate band bandAlias
    scale multiplier outputFolder chunkSize i s rule: divide_loop.induct)
  case (1 pf collection numChunks imageCollectionId startDate endDate band bandAlias
    scale multiplier outputFolder chunkSize i s)
  show ?case
  proof (cases "i < numChunks")
    case True
    with 1 show ?thesis
      by (subst divide_loop.simps) (simp add: exportTimeSeries_effects upt_conv_Cons)
  next
    case False
    then show ?thesis
      by (subst divide_loop.simps) simp
  qed
qed

lemma divide_loop_console:
  "length (console (divide_loop pf collection numChunks imageCollectionId startDate endDate band
                      bandAlias scale multiplier outputFolder chunkSize i s)) =
     length (console s) + (numChunks - i)"
proof (induction pf collection numChunks imageCollectionId startDate endDate band bandAlias
    scale multiplier outputFolder chunkSize i s rule: divide_loop.induct)
  case (1 pf collection numChunks imageCollectionId startDate endDate band bandAlias
    scale multiplier outputFolder chunkSize i s)
  show ?case
  proof (cases "i < numChunks")
    case True
    with 1 show ?thesis
      by (subst divide_loop.simps) (simp add: exportTimeSeries_effects)
  next
    case False
    then show ?thesis
      by (subst divide_loop.simps) simp
  qed
qed

text \<open>
  C10. \<open>divideAndExportTimeSeries\<close> with \<open>numChunks\<close> chunks runs \<open>exportTimeSeries\<close>
  that many times, for the chunks in increasing order: it prints that many lines and adds
  that many export tasks, the task of chunk \<open>i\<close> (counted from 0) being the export of the
  subset of that chunk under the prefix \<open>chunk\<close>, the decimal numeral of \<open>i + 1\<close>, \<open>_\<close>
  and the band alias. The prefixes of the tasks are pairwise distinct.
\<close>

theorem divideAndExportTimeSeries_calls:
  "\<exists>new. tasks (divideAndExportTimeSeries pf collection numChunks imageCollectionId startDate
                   endDate band bandAlias scale multiplier outputFolder s) = tasks s @ new \<and>
     length new = numChunks \<and>
     length (console (divideAndExportTimeSeries pf collection numChunks imageCollectionId startDate
                        endDate band bandAlias scale multiplier outputFolder s)) =
       length (console s) + numChunks \<and>
     (\<forall>i<numChunks.
        task_fileNamePrefix (new ! i) = ''chunk'' @ string_of_nat (i + 1) @ ''_'' @ bandAlias \<and>
        task_collection (new ! i) =
          timeSeriesResults pf imageCollectionId
            (chunk_subset collection (chunk_size (length collection) numChunks) i)
            startDate endDate band bandAlias scale multiplier) \<and>
     distinct (map task_fileNamePrefix new)"
proof -
  let ?new = "map (\<lambda>j. \<lparr>task_collection = timeSeriesResults pf imageCollectionId
                 (chunk_subset collection (chunk_size (length collection) numChunks) j)
                 startDate endDate band bandAlias scale multiplier,
               task_description = chunk_prefix j bandAlias, task_folder = outputFolder,
               task_fileNamePrefix = chunk_prefix j bandAlias, task_fileFormat = ''CSV''\<rparr>)
             [0..<numChunks]"
  have "tasks (divideAndExportTimeSeries pf collection numChunks imageCollectionId startDate
                 endDate band bandAlias scale multiplier outputFolder s) = tasks s @ ?new"
    by (simp add: divideAndExportTimeSeries_def Let_def divide_loop_tasks)
  moreover have "length ?new = numChunks" by simp
  moreover have "length (console (divideAndExportTimeSeries pf collection numChunks
        imageCollectionId startDate endDate band bandAlias scale multiplier outputFolder s)) =
      length (console s) + numChunks"
    by (simp add: divideAndExportTimeSeries_def Let_def divide_loop_console)
  moreover have "\<forall>i<numChunks.
      task_fileNamePrefix (?new ! i) = ''chunk'' @ string_of_nat (i + 1) @ ''_'' @ bandAlias \<and>
      task_collection (?new ! i) =
        timeSeriesResults pf imageCollectionId
          (chunk_subset collection (chunk_size (length collection) numChunks) i)
          startDate endDate band bandAlias scale multiplier"
    by (simp add: chunk_prefix_def)
  moreover have "distinct (map task_fileNamePrefix ?new)"
    by (auto simp: distinct_map comp_def inj_on_def dest: chunk_prefix_inj)
  ultimately show ?thesis by blast
qed

theorem divideAndExportTimeSeries_calls_witness:
  "\<exists>new. tasks (divideAndExportTimeSeries sample_platform sample_points 3 ''MODIS/006/MOD13Q1''
                   0 100 ''NDVI'' ''ndvi'' 250 (1 / 10000) ''eeT'' empty_session) = new \<and>
     length new = 3 \<and>
     task_fileNamePrefix (new ! 0) = ''chunk1_ndvi'' \<and>
     task_fileNamePrefix (new ! 1) = ''chunk2_ndvi'' \<and>
     task_fileNamePrefix (new ! 2) = ''chunk3_ndvi'' \<and>
     distinct (map task_fileNamePrefix new)"
proof -
  from divideAndExportTimeSeries_calls[of sample_platform sample_points 3 "''MODIS/006/MOD13Q1''"
      0 100 "''NDVI''" "''ndvi''" 250 "1 / 10000" "''eeT''" empty_session]
  obtain new where new: "tasks (divideAndExportTimeSeries sample_platform sample_points 3
        ''MODIS/006/MOD13Q1'' 0 100 ''NDVI'' ''ndvi'' 250 (1 / 10000) ''eeT'' empty_session) = new"
      "length new = 3" "distinct (map task_fileNamePrefix new)"
    and prefixes: "\<forall>i<3. task_fileNamePrefix (new ! i) =
        ''chunk'' @ string_of_nat (i + 1) @ ''_'' @ ''ndvi''"
    by (auto simp: empty_session_def)
  from prefixes have "task_fileNamePrefix (new ! 0) = ''chunk1_ndvi''"
    "task_fileNamePrefix (new ! 1) = ''chunk2_ndvi''"
    "task_fileNamePrefix (new ! 2) = ''chunk3_ndvi''"
    by (simp_all add: string_of_nat.simps digit_char_def)
  with new show ?thesis by blast
qed

section \<open>The chunks\<close>

lemma chunk_subset_eq:
  "chunk_subset collection chunkSize i =
     take (i * chunkSize + chunkSize) (drop (i * chunkSize) collection)"
  by (simp add: chunk_subset_def getSubset_def toList_def Let_def)

lemma chunk_size_covers:
  assumes "0 < numChunks"
  shows "totalFeatures \<le> chunk_size totalFeatures numChunks * numChunks"
proof -
  let ?q = "(of_nat totalFeatures :: rat) / of_nat numChunks"
  have "0 \<le> ?q" by simp
  then have "- 1 < ?q" by linarith
  then have c0: "0 \<le> \<lceil>?q\<rceil>" by (simp only: zero_le_ceiling)
  have "?q \<le> of_int \<lceil>?q\<rceil>" by (rule le_of_int_ceiling)
  with assms have "(of_nat totalFeatures :: rat) \<le> of_int \<lceil>?q\<rceil> * of_nat numChunks"
    by (simp only: pos_divide_le_eq of_nat_0_less_iff)
  also have "\<dots> = of_nat (nat \<lceil>?q\<rceil> * numChunks)"
    using c0 by simp
  finally show ?thesis
    unfolding chunk_size_def by (simp only: of_nat_le_iff)
qed

lemma chunk_subsets_cover:
  assumes "0 < numChunks"
  shows "(\<Union>i<numChunks. set (chunk_subset collection (chunk_size (length collection) numChunks) i)) =
           set collection"
proof
  show "(\<Union>i<numChunks. set (chunk_subset collection (chunk_size (length collection) numChunks) i))
          \<subseteq> set collection"
    by (auto simp: chunk_subset_eq dest: in_set_takeD in_set_dropD)
next
  let ?cs = "chunk_size (length collection) numChunks"
  show "set collection \<subseteq> (\<Union>i<numChunks. set (chunk_subset collection ?cs i))"
  proof
    fix x
    assume "x \<in> set collection"
    then obtain j where j: "j < length collection" "collection ! j = x"
      by (auto simp: in_set_conv_nth)
    from chunk_size_covers[OF assms, of "length collection"] j(1)
    have bound: "j < ?cs * numChunks" by simp
    then have cs: "0 < ?cs" by (cases "?cs") simp_all
    let ?i = "j div ?cs"
    from bound have i: "?i < numChunks"
      by (simp add: less_mult_imp_div_less mult.commute)
    define m where "m = ?i * ?cs"
    have m: "m \<le> j" "j - m < m + ?cs"
      unfolding m_def using cs
      by (simp, metis add.commute minus_mult_div_eq_mod mod_less_divisor mult.commute trans_less_add1)
    with j have idx: "j - m < length (take (m + ?cs) (drop m collection))"
      and "take (m + ?cs) (drop m collection) ! (j - m) = x"
      by simp_all
    then have "x \<in> set (take (m + ?cs) (drop m collection))"
      using nth_mem[OF idx] by simp
    then have "x \<in> set (take (?i * ?cs + ?cs) (drop (?i * ?cs) collection))"
      by (simp only: m_def)
    with i show "x \<in> (\<Union>i<numChunks. set (chunk_subset collection ?cs i))"
      by (auto simp: chunk_subset_eq)
  qed
qed

lemma sample_chunk_size: "chunk_size (length sample_points) 3 = 1"
  by (simp add: chunk_size_def sample_points_def)

text \<open>
  C1. For three points with distinct identifiers and three chunks the chunk size is 1,
  and the subsets that the loop of \<open>divideAndExportTimeSeries\<close> hands to
  \<open>exportTimeSeries\<close> are the first point, then the second and the third, then the third
  again: \<open>getSubset\<close> gives its end index to \<open>toList\<close> as the count, so the subset of
  chunk \<open>i\<close> runs over \<open>(i + 1) * chunkSize\<close> elements and the later chunks overlap.
\<close>

theorem chunk_subsets_overlap:
  "distinct (map (\<lambda>f. properties f ''id'') sample_points) \<and>
   chunk_subset sample_points (chunk_size (length sample_points) 3) 0 = [point 1] \<and>
   chunk_subset sample_points (chunk_size (length sample_points) 3) 1 = [point 2, point 3] \<and>
   chunk_subset sample_points (chunk_size (length sample_points) 3) 2 = [point 3] \<and>
   point 3 \<in> set (chunk_subset sample_points (chunk_size (length sample_points) 3) 1) \<inter>
             set (chunk_subset sample_points (chunk_size (length sample_points) 3) 2)"
  unfolding sample_chunk_size
  by (simp add: sample_points_distinct chunk_subset_eq) (simp add: sample_points_def)

end
